theory Spec2Isabelle
  imports Complex_Main "HOL-Library.AList"
begin

section \<open>Python and numpy values\<close>

text \<open>
  Exceptions are values: every function of the source that can raise returns
  \<open>error + 'a\<close>, with \<open>Inl\<close> for the exception.
\<close>

datatype error =
    ValueError
  | KeyError
  | IndexError
  | TypeError
  | AttributeError
  | LinAlgError
  | EOFError
  | RuntimeWarning string
  | NotImplementedError string

text \<open>
  A numpy float is a finite value, an infinity or NaN. Finite values are idealised
  as reals: rounding and overflow of the binary64 format are not modelled, and
  underflow is modelled where the source tests its outcome, in the step of the
  numerical gradient. Zero is positive zero.
\<close>

datatype npfloat = Fin real | PInf | NInf | NaN

definition is_finite :: "npfloat \<Rightarrow> bool" where
  "is_finite v = (case v of Fin r \<Rightarrow> True | _ \<Rightarrow> False)"

definition the_real :: "npfloat \<Rightarrow> real" where
  "the_real v = (case v of Fin r \<Rightarrow> r | _ \<Rightarrow> 0)"

definition is_zero :: "npfloat \<Rightarrow> bool" where
  "is_zero v = (v = Fin 0)"

definition is_inf :: "npfloat \<Rightarrow> bool" where
  "is_inf v = (v = PInf \<or> v = NInf)"

definition positive :: "npfloat \<Rightarrow> bool" where
  "positive v = (case v of Fin r \<Rightarrow> 0 \<le> r | PInf \<Rightarrow> True | _ \<Rightarrow> False)"

definition signed_inf :: "bool \<Rightarrow> npfloat" where
  "signed_inf pos = (if pos then PInf else NInf)"

text \<open>
  Product, sum and quotient of two floats after IEEE 754, each with the conditions
  under which the operation raises the floating-point flags \<open>invalid\<close> and
  \<open>divide by zero\<close>. A NaN operand gives NaN and raises no flag.
\<close>

definition np_mul :: "npfloat \<Rightarrow> npfloat \<Rightarrow> npfloat" where
  "np_mul a b =
     (if a = NaN \<or> b = NaN then NaN
      else if is_inf a \<or> is_inf b then
        (if is_zero a \<or> is_zero b then NaN else signed_inf (positive a = positive b))
      else Fin (the_real a * the_real b))"

definition mul_invalid :: "npfloat \<Rightarrow> npfloat \<Rightarrow> bool" where
  "mul_invalid a b = ((is_inf a \<and> is_zero b) \<or> (is_zero a \<and> is_inf b))"

definition np_add :: "npfloat \<Rightarrow> npfloat \<Rightarrow> npfloat" where
  "np_add a b =
     (if a = NaN \<or> b = NaN then NaN
      else if is_inf a then (if is_inf b \<and> a \<noteq> b then NaN else a)
      else if is_inf b then b
      else Fin (the_real a + the_real b))"

definition add_invalid :: "npfloat \<Rightarrow> npfloat \<Rightarrow> bool" where
  "add_invalid a b = (is_inf a \<and> is_inf b \<and> a \<noteq> b)"

definition np_truediv :: "npfloat \<Rightarrow> npfloat \<Rightarrow> npfloat" where
  "np_truediv a b =
     (if a = NaN \<or> b = NaN then NaN
      else if is_inf a then (if is_inf b then NaN else signed_inf (positive a = positive b))
      else if is_inf b then Fin 0
      else if is_zero b then (if is_zero a then NaN else signed_inf (positive a))
      else Fin (the_real a / the_real b))"

definition div_by_zero :: "npfloat \<Rightarrow> npfloat \<Rightarrow> bool" where
  "div_by_zero a b = (is_finite a \<and> \<not> is_zero a \<and> is_zero b)"

definition div_invalid :: "npfloat \<Rightarrow> npfloat \<Rightarrow> bool" where
  "div_invalid a b = ((is_zero a \<and> is_zero b) \<or> (is_inf a \<and> is_inf b))"

text \<open>
  Python's warnings filter: the first filter that matches a warning decides what
  happens to it, and the action \<open>error\<close> raises it as an exception. A filter is its
  action and its test on the text of the warning. A numpy operation that raised a
  floating-point flag gives its warnings to the filters in force, in order, and
  returns its value unless one of them is raised; the texts of the warnings are
  those of numpy 1.24.
\<close>

datatype action = ActError | ActIgnore | ActAlways | ActDefault | ActModule | ActOnce

record wfilter =
  action :: action
  matches :: "string \<Rightarrow> bool"

definition warn :: "wfilter list \<Rightarrow> string \<Rightarrow> error + unit" where
  "warn filters msg =
     (case find (\<lambda>flt. matches flt msg) filters of
        Some flt \<Rightarrow> (if action flt = ActError then Inl (RuntimeWarning msg) else Inr ())
      | None \<Rightarrow> Inr ())"

fun warn_all :: "wfilter list \<Rightarrow> string list \<Rightarrow> error + unit" where
  "warn_all filters [] = Inr ()"
| "warn_all filters (msg # msgs) =
     (case warn filters msg of Inl e \<Rightarrow> Inl e | Inr u \<Rightarrow> warn_all filters msgs)"

definition with_warnings :: "wfilter list \<Rightarrow> string list \<Rightarrow> 'a \<Rightarrow> error + 'a" where
  "with_warnings filters msgs v =
     (case warn_all filters msgs of Inl e \<Rightarrow> Inl e | Inr u \<Rightarrow> Inr v)"

text \<open>
  Element-wise operations on one-dimensional arrays follow numpy's broadcasting: equal
  lengths combine element by element, an array of length one is stretched, any other
  pair of lengths raises \<open>ValueError\<close>.
\<close>

definition broadcast2 :: "('a \<Rightarrow> 'a \<Rightarrow> 'b) \<Rightarrow> 'a list \<Rightarrow> 'a list \<Rightarrow> error + 'b list" where
  "broadcast2 oper xs ys =
     (if length xs = length ys then Inr (map2 oper xs ys)
      else if length xs = 1 then Inr (map (oper (xs ! 0)) ys)
      else if length ys = 1 then Inr (map (\<lambda>x. oper x (ys ! 0)) xs)
      else Inl ValueError)"

definition arr_sub :: "complex list \<Rightarrow> complex list \<Rightarrow> error + complex list" where
  "arr_sub xs ys = broadcast2 (\<lambda>a b. a - b) xs ys"

text \<open>\<open>np.array\<close> of a list of rows: the rows of a two-dimensional array have one length.\<close>

definition np_array :: "'a list list \<Rightarrow> error + 'a list list" where
  "np_array rows =
     (if list_all (\<lambda>row. length row = length (hd rows)) rows then Inr rows
      else Inl ValueError)"

text \<open>\<open>np.finfo(np.float32).eps\<close>, the gap between 1 and the next binary32 number.\<close>

definition float32_eps :: real where
  "float32_eps = 1 / 2 ^ 23"

section \<open>The store\<close>

text \<open>
  Modelled from the spec: the variable mapping class, the orchestrator class
  \<open>dynMRS\<close> and the single-spectrum model are not among the sources. The records
  hold the attributes that \<open>dyn_results.py\<close> reads; a spectrum is its data.
  A behaviour is what the configuration gives for a parameter group: a string, or a
  dictionary with the keys \<open>dynamic\<close> and \<open>params\<close>.
\<close>

datatype cfgval = CStr string | CList "string list"

datatype behaviour = BehStr string | BehDict "(string \<times> cfgval) list"

record VariableMapping =
  mapped_names :: "string list"
  mapped_sizes :: "nat list"
  Parameters :: "(string \<times> behaviour) list"
  ntimes :: nat
  time_variable :: "real list list"

record dynMRS =
  free_names :: "string list"
  vm :: VariableMapping
  dyn_mapped_names :: "string list"
  metabolite_names :: "string list"
  time_var :: "real list list"
  data :: "complex list list"
  mrs_list :: nat

text \<open>
  Python objects that are shared and mutated live in a store: a list of cells, the
  address of a cell being its index. A cell is a float array, a nested array of mapped
  parameters (timepoints, groups, values), a spectrum, a list of spectra (holding
  addresses) or an orchestrator (holding the address of its spectrum list).
  Allocation appends a cell.
\<close>

datatype cell =
    CArr "real list"
  | CNested "real list list list"
  | CMrs "complex list"
  | CMrsList "nat list"
  | CDyn dynMRS

type_synonym heap = "cell list"

definition lookup :: "heap \<Rightarrow> nat \<Rightarrow> cell option" where
  "lookup h a = (if a < length h then Some (h ! a) else None)"

section \<open>Numerical differentiation (misc.py)\<close>

text \<open>
  The binary64 product of a float \<open>a \<ge> 0\<close> with \<open>np.finfo(np.float32).eps\<close>. Scaling
  by a power of two is exact as long as the result is a normal number; below the least
  normal number \<open>2\<^sup>-\<^sup>1\<^sup>0\<^sup>2\<^sup>2\<close> the result is rounded to the nearest multiple of
  \<open>2\<^sup>-\<^sup>1\<^sup>0\<^sup>7\<^sup>4\<close>, ties to the even multiple, and so is zero for a small enough \<open>a\<close>.
  Sums, differences and quotients of floats are taken exact.
\<close>

definition round_half_even :: "real \<Rightarrow> int" where
  "round_half_even q =
     (let n = \<lfloor>q\<rfloor> in
      if q - of_int n < 1 / 2 then n
      else if 1 / 2 < q - of_int n then n + 1
      else if even n then n else n + 1)"

definition times_float32_eps :: "real \<Rightarrow> real" where
  "times_float32_eps a =
     (if a * float32_eps < 1 / 2 ^ 1022
      then of_int (round_half_even (a * float32_eps * 2 ^ 1074)) / 2 ^ 1074
      else a * float32_eps)"

text \<open>
  An array that a function of the parameters returns is a new array, or it shares
  the memory of the argument (the argument itself, or a view of it) and is given by
  the indices of the argument that it shows. The contents of a view are read when
  they are used, from the argument as it is then.
\<close>

datatype 'a ndarray = Fresh "'a list" | View "nat list"

definition read_array :: "(real \<Rightarrow> 'a) \<Rightarrow> real list \<Rightarrow> 'a ndarray \<Rightarrow> 'a list" where
  "read_array conv x r =
     (case r of Fresh zs \<Rightarrow> zs | View idx \<Rightarrow> map (\<lambda>k. conv (x ! k)) idx)"


text \<open>
  One pass of the loop body of \<open>gradient\<close> on the local array \<open>x\<close>: the step, the
  saved coordinate, the two evaluations, the quotient, the restored coordinate. The
  function \<open>f\<close> may raise. The quotient \<open>(f1 - f0) / eps\<close> is that of the type of the
  results of \<open>f\<close>; it is taken while the coordinate is perturbed. When a call or the
  quotient raises, the coordinate is as it was then.
\<close>

definition gradient_step ::
    "(real list \<Rightarrow> error + 'r) \<Rightarrow> (real list \<Rightarrow> 'r \<Rightarrow> 'r \<Rightarrow> real \<Rightarrow> error + 'q) \<Rightarrow> nat \<Rightarrow> real list
      \<Rightarrow> real list \<times> (error + 'q)" where
  "gradient_step f quot i x =
     (let eps = times_float32_eps \<bar>x ! i\<bar>;
          eps = (if eps = 0 then 1 / 100000 else eps);
          xx0 = 1 * x ! i
      in case f x of
           Inl e \<Rightarrow> (x, Inl e)
         | Inr f0 \<Rightarrow>
             (let x = x[i := x ! i + eps] in
              case f x of
                Inl e \<Rightarrow> (x, Inl e)
              | Inr f1 \<Rightarrow>
                  (case quot x f1 f0 eps of
                     Inl e \<Rightarrow> (x, Inl e)
                   | Inr q \<Rightarrow> (x[i := xx0], Inr q))))"

fun gradient_loop ::
    "(real list \<Rightarrow> error + 'r) \<Rightarrow> (real list \<Rightarrow> 'r \<Rightarrow> 'r \<Rightarrow> real \<Rightarrow> error + 'q) \<Rightarrow> nat list
      \<Rightarrow> real list \<Rightarrow> 'q list \<Rightarrow> real list \<times> (error + 'q list)" where
  "gradient_loop f quot [] x acc = (x, Inr acc)"
| "gradient_loop f quot (i # is) x acc =
     (case gradient_step f quot i x of
        (x', Inl e) \<Rightarrow> (x', Inl e)
      | (x', Inr g) \<Rightarrow> gradient_loop f quot is x' (acc @ [g]))"

text \<open>The quotient of two arrays: both are read from the working array as it is.\<close>

definition array_quotient ::
    "real list \<Rightarrow> complex ndarray \<Rightarrow> complex ndarray \<Rightarrow> real \<Rightarrow> error + complex list" where
  "array_quotient x f1 f0 eps =
     (case arr_sub (read_array complex_of_real x f1) (read_array complex_of_real x f0) of
        Inl e \<Rightarrow> Inl e
      | Inr d \<Rightarrow> Inr (map (\<lambda>z. z / complex_of_real eps) d))"

text \<open>
  \<open>gradient(x, f)\<close> for an \<open>f\<close> that returns arrays: \<open>x.astype(float)\<close> allocates a copy
  of the caller's array, the loop works on the copy, the result is the array of the
  quotients. The store that is returned holds the copy as the loop left it.
\<close>

definition gradient ::
    "heap \<Rightarrow> nat \<Rightarrow> (real list \<Rightarrow> error + complex ndarray)
      \<Rightarrow> heap \<times> (error + complex list list)" where
  "gradient h a f =
     (case lookup h a of
        Some (CArr xs) \<Rightarrow>
          (case gradient_loop f array_quotient [0..<length xs] xs [] of
             (x', Inl e) \<Rightarrow> (h @ [CArr x'], Inl e)
           | (x', Inr g) \<Rightarrow> (h @ [CArr x'], np_array g))
      | _ \<Rightarrow> (h, Inl AttributeError))"

text \<open>
  \<open>gradient(x, f)\<close> for an \<open>f\<close> that returns the nested array of the mapped parameters,
  an array of timepoints by groups whose elements are arrays: the difference and the
  quotient go element by element, with broadcasting at each level, and \<open>np.array\<close>
  stacks the quotients when they have one shape.
\<close>

fun map_result :: "('a \<Rightarrow> error + 'b) \<Rightarrow> 'a list \<Rightarrow> error + 'b list" where
  "map_result g [] = Inr []"
| "map_result g (y # ys) =
     (case g y of
        Inl e \<Rightarrow> Inl e
      | Inr v \<Rightarrow> (case map_result g ys of Inl e \<Rightarrow> Inl e | Inr vs \<Rightarrow> Inr (v # vs)))"

definition broadcast_result ::
    "('a \<Rightarrow> 'a \<Rightarrow> error + 'b) \<Rightarrow> 'a list \<Rightarrow> 'a list \<Rightarrow> error + 'b list" where
  "broadcast_result oper xs ys =
     (if length xs = length ys then map_result (\<lambda>uv. oper (fst uv) (snd uv)) (zip xs ys)
      else if length xs = 1 then map_result (oper (xs ! 0)) ys
      else if length ys = 1 then map_result (\<lambda>u. oper u (ys ! 0)) xs
      else Inl ValueError)"

definition nested_quotient ::
    "real list \<Rightarrow> real ndarray list list \<Rightarrow> real ndarray list list \<Rightarrow> real
      \<Rightarrow> error + real list list list" where
  "nested_quotient x f1 f0 eps =
     broadcast_result
       (\<lambda>r1 r0. broadcast_result
          (\<lambda>a1 a0. case broadcast2 (\<lambda>u v. u - v) (read_array (\<lambda>v. v) x a1)
                                                  (read_array (\<lambda>v. v) x a0) of
                      Inl e \<Rightarrow> Inl e
                    | Inr d \<Rightarrow> Inr (map (\<lambda>z. z / eps) d))
          r1 r0)
       f1 f0"

definition np_array_nested :: "real list list list list \<Rightarrow> error + real list list list list" where
  "np_array_nested qs =
     (if list_all (\<lambda>q. map length q = map length (hd qs)) qs then Inr qs else Inl ValueError)"

definition gradient_nested ::
    "heap \<Rightarrow> nat \<Rightarrow> (real list \<Rightarrow> error + real ndarray list list)
      \<Rightarrow> heap \<times> (error + real list list list list)" where
  "gradient_nested h a f =
     (case lookup h a of
        Some (CArr xs) \<Rightarrow>
          (case gradient_loop f nested_quotient [0..<length xs] xs [] of
             (x', Inl e) \<Rightarrow> (h @ [CArr x'], Inl e)
           | (x', Inr g) \<Rightarrow> (h @ [CArr x'], np_array_nested g))
      | _ \<Rightarrow> (h, Inl AttributeError))"

text \<open>
  \<open>np.var\<close> of a complex array is the mean of the squared moduli of the deviations
  from the mean, and NaN for an empty array, with the warnings of the divisions by the
  count zero. Dividing a finite float by the variance follows IEEE 754 where the
  variance is zero or not finite.
\<close>

definition np_var :: "complex list \<Rightarrow> npfloat" where
  "np_var zs =
     (if zs = [] then NaN
      else let n = real (length zs);
               m = sum_list zs / complex_of_real n
           in Fin (sum_list (map (\<lambda>z. (cmod (z - m))\<^sup>2) zs) / n))"

definition np_var_warned :: "wfilter list \<Rightarrow> complex list \<Rightarrow> error + npfloat" where
  "np_var_warned filters zs =
     with_warnings filters
       (if zs = [] then [''Degrees of freedom <= 0 for slice'',
                         ''invalid value encountered in divide'',
                         ''invalid value encountered in scalar divide'']
        else [])
       (np_var zs)"

definition np_div :: "real \<Rightarrow> npfloat \<Rightarrow> npfloat" where
  "np_div a s =
     (case s of
        Fin b \<Rightarrow> (if b = 0 then (if a = 0 then NaN else if 0 < a then PInf else NInf)
                  else Fin (a / b))
      | PInf \<Rightarrow> Fin 0
      | NInf \<Rightarrow> Fin 0
      | NaN \<Rightarrow> NaN)"

definition np_div_warned :: "wfilter list \<Rightarrow> real \<Rightarrow> npfloat \<Rightarrow> error + npfloat" where
  "np_div_warned filters a s =
     with_warnings filters
       (if s = Fin 0 then
          (if a = 0 then [''invalid value encountered in scalar divide'']
           else [''divide by zero encountered in scalar divide''])
        else [])
       (np_div a s)"

text \<open>
  \<open>calculate_lap_cov(x, f, data)\<close>. The pseudo-inverse \<open>np.linalg.pinv\<close> is a
  parameter: it is numpy's, computed by a singular value decomposition that can
  raise \<open>LinAlgError\<close>. The first call of \<open>f\<close> is on the caller's array.
\<close>

definition calculate_lap_cov ::
    "(npfloat list list \<Rightarrow> error + npfloat list list) \<Rightarrow> wfilter list \<Rightarrow> heap \<Rightarrow> nat
      \<Rightarrow> (real list \<Rightarrow> error + complex ndarray) \<Rightarrow> complex list
      \<Rightarrow> heap \<times> (error + npfloat list list)" where
  "calculate_lap_cov pinv filters h a f dat =
     (case lookup h a of
        Some (CArr xs) \<Rightarrow>
          (let N = length xs in
           case f xs of
             Inl e \<Rightarrow> (h, Inl e)
           | Inr fx \<Rightarrow>
               (case arr_sub dat (read_array complex_of_real xs fx) of
                  Inl e \<Rightarrow> (h, Inl e)
                | Inr res \<Rightarrow>
                    (case np_var_warned filters res of
                       Inl e \<Rightarrow> (h, Inl e)
                     | Inr sig2 \<Rightarrow>
                         (case gradient h a f of
                            (h', Inl e) \<Rightarrow> (h', Inl e)
                          | (h', Inr grad) \<Rightarrow>
                              (case map_result (\<lambda>i. map_result (\<lambda>j.
                                        np_div_warned filters
                                          (sum_list (map2 (\<lambda>u v. Re u * Re v + Im u * Im v)
                                                      (grad ! i) (grad ! j)))
                                          sig2)
                                      [0..<N]) [0..<N] of
                                 Inl e \<Rightarrow> (h', Inl e)
                               | Inr C \<Rightarrow> (h', pinv C))))))
      | _ \<Rightarrow> (h, Inl AttributeError))"


section \<open>Results classes (dyn_results.py)\<close>

text \<open>
  A pandas data frame of floats: the column names, the rows and the name of the index.
  The frame is held by value: whether pandas shares the buffer of the array it is
  built from depends on its version, and nothing below changes the samples.
\<close>

record DataFrame =
  columns :: "string list"
  rows :: "real list list"
  index_name :: string

text \<open>
  The attributes \<open>_data\<close>, \<open>_dyn\<close> and \<open>_init_x\<close> of \<open>dynRes\<close>. The last two are
  references into the store.
\<close>

record dynRes =
  self_data :: DataFrame
  self_dyn :: nat
  self_init_x :: nat

text \<open>
  \<open>copy.deepcopy\<close> of an orchestrator: every object reachable from it is duplicated
  once into a fresh cell (the memo keeps a spectrum that occurs twice in the list
  shared in the copy), and the references of the duplicates point to duplicates.
  The originals are read in the store \<open>h0\<close> of the call; the store \<open>h\<close> grows.
  The store is typed: the copy is defined for an orchestrator whose list holds
  spectra, and is an error of the model elsewhere.
\<close>

fun deepcopy_spectra ::
    "heap \<Rightarrow> heap \<Rightarrow> (nat \<times> nat) list \<Rightarrow> nat list
      \<Rightarrow> error + heap \<times> (nat \<times> nat) list \<times> nat list" where
  "deepcopy_spectra h0 h memo [] = Inr (h, memo, [])"
| "deepcopy_spectra h0 h memo (a # as) =
     (case map_of memo a of
        Some a' \<Rightarrow>
          (case deepcopy_spectra h0 h memo as of
             Inl e \<Rightarrow> Inl e
           | Inr (h', memo', bs) \<Rightarrow> Inr (h', memo', a' # bs))
      | None \<Rightarrow>
          (case lookup h0 a of
             Some (CMrs s) \<Rightarrow>
               (case deepcopy_spectra h0 (h @ [CMrs s]) ((a, length h) # memo) as of
                  Inl e \<Rightarrow> Inl e
                | Inr (h', memo', bs) \<Rightarrow> Inr (h', memo', length h # bs))
           | _ \<Rightarrow> Inl TypeError))"

definition deepcopy :: "heap \<Rightarrow> nat \<Rightarrow> error + heap \<times> nat" where
  "deepcopy h a =
     (case lookup h a of
        Some (CDyn d) \<Rightarrow>
          (case lookup h (mrs_list d) of
             Some (CMrsList as) \<Rightarrow>
               (case deepcopy_spectra h h [] as of
                  Inl e \<Rightarrow> Inl e
                | Inr (h1, memo, bs) \<Rightarrow>
                    (let h2 = h1 @ [CMrsList bs];
                         h3 = h2 @ [CDyn (d\<lparr>mrs_list := length h1\<rparr>)]
                     in Inr (h3, length h2)))
           | _ \<Rightarrow> Inl TypeError)
      | _ \<Rightarrow> Inl TypeError)"

text \<open>
  \<open>dynRes.__init__(samples, dyn, init)\<close>: the frame of the samples under the free
  names (pandas raises \<open>ValueError\<close> when a row has another length), the deep copy
  of the orchestrator, and the reference \<open>init['x']\<close>. The dictionary \<open>init\<close> is
  given by its items; its value for \<open>x\<close> is an address.
\<close>

definition dynRes_init ::
    "heap \<Rightarrow> real list list \<Rightarrow> nat \<Rightarrow> (string \<times> nat) list \<Rightarrow> error + heap \<times> dynRes" where
  "dynRes_init h samples dyn init =
     (case lookup h dyn of
        Some (CDyn d) \<Rightarrow>
          (if list_all (\<lambda>row. length row = length (free_names d)) samples then
             (case deepcopy h dyn of
                Inl e \<Rightarrow> Inl e
              | Inr (h', c) \<Rightarrow>
                  (case map_of init ''x'' of
                     None \<Rightarrow> Inl KeyError
                   | Some ix \<Rightarrow>
                       Inr (h', \<lparr>self_data = \<lparr>columns = free_names d, rows = samples,
                                               index_name = ''samples''\<rparr>,
                                  self_dyn = c, self_init_x = ix\<rparr>)))
           else Inl ValueError)
      | _ \<Rightarrow> Inl AttributeError)"

text \<open>
  The objects of an orchestrator: the orchestrator, its spectrum list and the spectra
  of the list.
\<close>

definition dyn_objects :: "heap \<Rightarrow> nat \<Rightarrow> nat set" where
  "dyn_objects h dyn =
     (case lookup h dyn of
        Some (CDyn d) \<Rightarrow>
          {dyn, mrs_list d}
            \<union> (case lookup h (mrs_list d) of Some (CMrsList as) \<Rightarrow> set as | _ \<Rightarrow> {})
      | _ \<Rightarrow> {dyn})"

definition data_frame :: "'a dynRes_scheme \<Rightarrow> DataFrame" where
  "data_frame self = self_data self"

text \<open>The mean of a column as pandas computes it: NaN for a column with no entry.\<close>

definition np_mean :: "real list \<Rightarrow> npfloat" where
  "np_mean col = (if col = [] then NaN else Fin (sum_list col / real (length col)))"

definition dynRes_x :: "'a dynRes_scheme \<Rightarrow> npfloat list" where
  "dynRes_x self =
     map (\<lambda>j. np_mean (map (\<lambda>row. row ! j) (rows (data_frame self))))
       [0..<length (columns (data_frame self))]"

definition flatten_mapped :: "'a list list list \<Rightarrow> 'a list list" where
  "flatten_mapped mapped = map concat mapped"

text \<open>
  The methods \<open>free_to_mapped\<close>, \<open>mapped_to_free\<close> and \<open>mapped_to_dict\<close> of the variable
  mapping are not among the sources: they are parameters, functions of the mapping
  object they are called on. \<open>free_to_mapped\<close> returns the nested array, timepoints by
  groups, whose elements are new arrays or views of the free parameters;
  \<open>mapped_to_dict\<close> returns the dictionary of the groups, each value a two-dimensional
  array given by its number of columns and its rows.
\<close>

record vm_methods =
  free_to_mapped :: "VariableMapping \<Rightarrow> real list \<Rightarrow> error + real ndarray list list"
  mapped_to_free :: "VariableMapping \<Rightarrow> real list list list \<Rightarrow> error + real list"
  mapped_to_dict ::
    "VariableMapping \<Rightarrow> real list list list \<Rightarrow> error + (string \<times> nat \<times> real list list) list"

definition mapped_values :: "real list \<Rightarrow> real ndarray list list \<Rightarrow> real list list list" where
  "mapped_values x mapped = map (map (read_array (\<lambda>v. v) x)) mapped"

definition read_dyn :: "heap \<Rightarrow> 'a dynRes_scheme \<Rightarrow> error + dynMRS" where
  "read_dyn h self =
     (case lookup h (self_dyn self) of Some (CDyn d) \<Rightarrow> Inr d | _ \<Rightarrow> Inl AttributeError)"

definition read_init_x :: "heap \<Rightarrow> 'a dynRes_scheme \<Rightarrow> error + real list list list" where
  "read_init_x h self =
     (case lookup h (self_init_x self) of Some (CNested X) \<Rightarrow> Inr X | _ \<Rightarrow> Inl TypeError)"

definition mapped_parameters ::
    "vm_methods \<Rightarrow> heap \<Rightarrow> 'a dynRes_scheme \<Rightarrow> error + real list list list" where
  "mapped_parameters M h self =
     map_result (\<lambda>fp.
         case read_dyn h self of
           Inl e \<Rightarrow> Inl e
         | Inr d \<Rightarrow>
             (case free_to_mapped M (vm d) fp of
                Inl e \<Rightarrow> Inl e
              | Inr mapped \<Rightarrow> Inr (flatten_mapped (mapped_values fp mapped))))
       (rows (self_data self))"

definition mapped_parameters_init :: "heap \<Rightarrow> 'a dynRes_scheme \<Rightarrow> error + real list list" where
  "mapped_parameters_init h self =
     (case read_init_x h self of Inl e \<Rightarrow> Inl e | Inr X \<Rightarrow> Inr (flatten_mapped X))"

definition free_parameters_init ::
    "vm_methods \<Rightarrow> heap \<Rightarrow> 'a dynRes_scheme \<Rightarrow> error + real list" where
  "free_parameters_init M h self =
     (case read_dyn h self of
        Inl e \<Rightarrow> Inl e
      | Inr d \<Rightarrow>
          (case read_init_x h self of
             Inl e \<Rightarrow> Inl e
           | Inr X \<Rightarrow> mapped_to_free M (vm d) X))"

definition mapped_parameters_fitted_init ::
    "vm_methods \<Rightarrow> heap \<Rightarrow> 'a dynRes_scheme \<Rightarrow> error + real list list" where
  "mapped_parameters_fitted_init M h self =
     (case read_dyn h self of
        Inl e \<Rightarrow> Inl e
      | Inr d \<Rightarrow>
          (case free_parameters_init M h self of
             Inl e \<Rightarrow> Inl e
           | Inr fp \<Rightarrow>
               (case free_to_mapped M (vm d) fp of
                  Inl e \<Rightarrow> Inl e
                | Inr mapped \<Rightarrow> Inr (flatten_mapped (mapped_values fp mapped)))))"

definition dynRes_mapped_names :: "heap \<Rightarrow> 'a dynRes_scheme \<Rightarrow> error + string list" where
  "dynRes_mapped_names h self =
     (case read_dyn h self of Inl e \<Rightarrow> Inl e | Inr d \<Rightarrow> Inr (dyn_mapped_names d))"

definition dynRes_free_names :: "heap \<Rightarrow> 'a dynRes_scheme \<Rightarrow> error + string list" where
  "dynRes_free_names h self =
     (case read_dyn h self of Inl e \<Rightarrow> Inl e | Inr d \<Rightarrow> Inr (free_names d))"

text \<open>
  What the plotting methods read of the copied context: the orchestrator record and
  the spectra of its list.
\<close>

definition fitting_context ::
    "heap \<Rightarrow> 'a dynRes_scheme \<Rightarrow> error + dynMRS \<times> cell option list" where
  "fitting_context h self =
     (case read_dyn h self of
        Inl e \<Rightarrow> Inl e
      | Inr d \<Rightarrow>
          (case lookup h (mrs_list d) of
             Some (CMrsList bs) \<Rightarrow> Inr (d, map (lookup h) bs)
           | _ \<Rightarrow> Inl TypeError))"

subsection \<open>The collected results\<close>

text \<open>
  The result is a dictionary of dictionaries; both keep the order of insertion, and an
  assignment to a key that exists replaces its value in place. A column holds names or
  values.
\<close>

datatype column = Names "string list" | Vals "npfloat list"

type_synonym table = "(string \<times> column) list"

type_synonym results = "(string \<times> table) list"

text \<open>The decimal numeral of a natural number, as an f-string prints it.\<close>

definition digit_char :: "nat \<Rightarrow> char" where
  "digit_char n = ''0123456789'' ! n"

function str_nat :: "nat \<Rightarrow> string" where
  "str_nat n = (if n < 10 then [digit_char n] else str_nat (n div 10) @ [digit_char (n mod 10)])"
  by pat_completeness auto
termination
  by (relation "measure id") auto

declare str_nat.simps [simp del]

text \<open>The slice \<open>xs[a:b]\<close> for \<open>0 \<le> a \<le> b\<close>: it is shorter where \<open>xs\<close> ends early.\<close>

definition py_slice :: "'a list \<Rightarrow> nat \<Rightarrow> nat \<Rightarrow> 'a list" where
  "py_slice xs a b = take (b - a) (drop a xs)"

text \<open>
  Python's \<open>in\<close>: a substring test on a string, a test for a key on a dictionary.
\<close>

primrec is_substring :: "string \<Rightarrow> string \<Rightarrow> bool" where
  "is_substring p [] = (p = [])"
| "is_substring p (c # cs) = (take (length p) (c # cs) = p \<or> is_substring p cs)"

definition py_in :: "string \<Rightarrow> behaviour \<Rightarrow> bool" where
  "py_in k beh = (case beh of BehStr s \<Rightarrow> is_substring k s | BehDict d \<Rightarrow> map_of d k \<noteq> None)"

text \<open>Indexing a behaviour with \<open>'params'\<close>: a string cannot be indexed by a string.\<close>

definition beh_params :: "behaviour \<Rightarrow> error + cfgval" where
  "beh_params beh =
     (case beh of
        BehStr s \<Rightarrow> Inl TypeError
      | BehDict d \<Rightarrow> (case map_of d ''params'' of None \<Rightarrow> Inl KeyError | Some v \<Rightarrow> Inr v))"

text \<open>The items of a sequence: the characters of a string, the elements of a list.\<close>

definition py_seq :: "cfgval \<Rightarrow> string list" where
  "py_seq v = (case v of CStr s \<Rightarrow> map (\<lambda>c. [c]) s | CList l \<Rightarrow> l)"

definition group_header :: "string \<Rightarrow> nat \<Rightarrow> string list \<Rightarrow> table \<Rightarrow> table" where
  "group_header param nmapped metab_names tbl =
     (let isconc = (param = ''conc'') in
      if \<not> isconc then
        AList.update ''name'' (Names (map (\<lambda>x. param @ ''_'' @ str_nat x) [0..<nmapped])) tbl
      else AList.update ''metab'' (Names metab_names) tbl)"

fun variable_loop :: "npfloat list \<Rightarrow> nat \<Rightarrow> nat list \<Rightarrow> table \<times> nat \<Rightarrow> table \<times> nat" where
  "variable_loop values nmapped [] (tbl, counter) = (tbl, counter)"
| "variable_loop values nmapped (t # ts) (tbl, counter) =
     variable_loop values nmapped ts
       (AList.update (''t'' @ str_nat t) (Vals (py_slice values counter (counter + nmapped))) tbl,
        counter + nmapped)"

fun tmp_loop ::
    "npfloat list \<Rightarrow> nat \<Rightarrow> nat list \<Rightarrow> npfloat list list \<times> nat \<Rightarrow> npfloat list list \<times> nat" where
  "tmp_loop values nfree [] (tmp, counter) = (tmp, counter)"
| "tmp_loop values nfree (t # ts) (tmp, counter) =
     tmp_loop values nfree ts (tmp @ [py_slice values counter (counter + nfree)], counter + nfree)"

text \<open>
  \<open>results[param][t] = tmp[:, i]\<close> for the named coefficients: the column \<open>i\<close> exists
  when \<open>tmp\<close> is two-dimensional (it has a row) and its rows are longer than \<open>i\<close>.
\<close>

fun columns_loop :: "npfloat list list \<Rightarrow> (nat \<times> string) list \<Rightarrow> table \<Rightarrow> error + table" where
  "columns_loop tmp [] tbl = Inr tbl"
| "columns_loop tmp ((i, t) # its) tbl =
     (if tmp \<noteq> [] \<and> i < length (hd tmp) then
        columns_loop tmp its (AList.update t (Vals (map (\<lambda>row. row ! i) tmp)) tbl)
      else Inl IndexError)"

text \<open>
  The body of the loop over the parameter groups, on the dictionary collected so far
  and the counter into the values.
\<close>

definition group_step ::
    "VariableMapping \<Rightarrow> string list \<Rightarrow> npfloat list \<Rightarrow> results \<times> nat \<Rightarrow> nat \<times> string
      \<Rightarrow> error + results \<times> nat" where
  "group_step vm_obj metab_names values rc ip =
     (case rc of (results, counter) \<Rightarrow> case ip of (index, param) \<Rightarrow>
      (let results = AList.update param [] results in
       if index < length (mapped_sizes vm_obj) then
         (let nmapped = mapped_sizes vm_obj ! index in
          case map_of (Parameters vm_obj) param of
            None \<Rightarrow> Inl KeyError
          | Some beh \<Rightarrow>
              if beh = BehStr ''fixed'' then
                (let tbl = group_header param nmapped metab_names [];
                     tbl = AList.update ''Values''
                             (Vals (py_slice values counter (counter + nmapped))) tbl
                 in Inr (AList.update param tbl results, counter + nmapped))
              else if beh = BehStr ''variable'' then
                (case variable_loop values nmapped [0..<ntimes vm_obj]
                        (group_header param nmapped metab_names [], counter) of
                   (tbl, counter') \<Rightarrow> Inr (AList.update param tbl results, counter'))
              else if py_in ''dynamic'' beh then
                (case beh_params beh of
                   Inl e \<Rightarrow> Inl e
                 | Inr dyn_name \<Rightarrow>
                     (let nfree = length (py_seq dyn_name);
                          tbl = group_header param nmapped metab_names []
                      in case tmp_loop values nfree [0..<nmapped] ([], counter) of
                           (tmp, counter') \<Rightarrow>
                             (case np_array tmp of
                                Inl e \<Rightarrow> Inl e
                              | Inr tmp' \<Rightarrow>
                                  (case columns_loop tmp' (enumerate 0 (py_seq dyn_name)) tbl of
                                     Inl e \<Rightarrow> Inl e
                                   | Inr tbl' \<Rightarrow>
                                       Inr (AList.update param tbl' results, counter')))))
              else Inr (results, counter))
       else Inl IndexError))"

fun groups_loop ::
    "VariableMapping \<Rightarrow> string list \<Rightarrow> npfloat list \<Rightarrow> (nat \<times> string) list \<Rightarrow> results \<times> nat
      \<Rightarrow> error + results \<times> nat" where
  "groups_loop vm_obj metab_names values [] rc = Inr rc"
| "groups_loop vm_obj metab_names values (ip # ips) rc =
     (case group_step vm_obj metab_names values rc ip of
        Inl e \<Rightarrow> Inl e
      | Inr rc' \<Rightarrow> groups_loop vm_obj metab_names values ips rc')"

text \<open>
  Writing the tables: \<open>pd.DataFrame\<close> of a dictionary of columns raises
  \<open>ValueError\<close> when the columns differ in length; \<open>to_csv\<close> stores the table under
  the path. The files are the part of the state that the method can change.
\<close>

record pystate =
  store :: heap
  files :: "(string \<times> table) list"

definition column_length :: "column \<Rightarrow> nat" where
  "column_length c = (case c of Names ns \<Rightarrow> length ns | Vals vs \<Rightarrow> length vs)"

definition table_frame :: "table \<Rightarrow> error + table" where
  "table_frame tbl =
     (if list_all (\<lambda>kc. column_length (snd kc) = column_length (snd (hd tbl))) tbl then Inr tbl
      else Inl ValueError)"

fun write_loop ::
    "string \<Rightarrow> string list \<Rightarrow> results \<Rightarrow> (string \<times> table) list
      \<Rightarrow> (string \<times> table) list \<times> (error + unit)" where
  "write_loop to_file [] res fs = (fs, Inr ())"
| "write_loop to_file (param # ps) res fs =
     (case map_of res param of
        None \<Rightarrow> (fs, Inl KeyError)
      | Some tbl \<Rightarrow>
          (case table_frame tbl of
             Inl e \<Rightarrow> (fs, Inl e)
           | Inr df \<Rightarrow>
               write_loop to_file ps res (AList.update (to_file @ ''_'' @ param @ ''.csv'') df fs)))"

text \<open>
  \<open>collected_results(to_file)\<close> as a state transformer: it returns the dictionary, or
  the exception, and the state after the call.
\<close>

definition collected_results ::
    "'a dynRes_scheme \<Rightarrow> string option \<Rightarrow> pystate \<Rightarrow> (error + results) \<times> pystate" where
  "collected_results self to_file s =
     (case read_dyn (store s) self of
        Inl e \<Rightarrow> (Inl e, s)
      | Inr d \<Rightarrow>
          (let vm_obj = vm d;
               values = dynRes_x self;
               metab_names = metabolite_names d
           in case groups_loop vm_obj metab_names values (enumerate 0 (mapped_names vm_obj)) ([], 0) of
                Inl e \<Rightarrow> (Inl e, s)
              | Inr (res, counter) \<Rightarrow>
                  (case to_file of
                     None \<Rightarrow> (Inr res, s)
                   | Some path \<Rightarrow>
                       (case write_loop path (mapped_names vm_obj) res (files s) of
                          (fs, Inl e) \<Rightarrow> (Inl e, s\<lparr>files := fs\<rparr>)
                        | (fs, Inr u) \<Rightarrow> (Inr res, s\<lparr>files := fs\<rparr>)))))"

subsection \<open>The Newton results class\<close>

text \<open>
  \<open>np.sqrt\<close> under numpy's default error state: the root of a negative number is NaN,
  and an array with such an entry gives the warning
  \<open>invalid value encountered in sqrt\<close>.
\<close>

definition np_sqrt :: "npfloat \<Rightarrow> npfloat" where
  "np_sqrt v =
     (case v of
        Fin r \<Rightarrow> (if r < 0 then NaN else Fin (sqrt r))
      | PInf \<Rightarrow> PInf
      | NInf \<Rightarrow> NaN
      | NaN \<Rightarrow> NaN)"

definition negative :: "npfloat \<Rightarrow> bool" where
  "negative v = (case v of Fin r \<Rightarrow> r < 0 | NInf \<Rightarrow> True | _ \<Rightarrow> False)"

definition np_sqrt_arr :: "wfilter list \<Rightarrow> npfloat list \<Rightarrow> error + npfloat list" where
  "np_sqrt_arr filters vs =
     (if list_ex negative vs then
        (case warn filters ''invalid value encountered in sqrt'' of
           Inl e \<Rightarrow> Inl e
         | Inr u \<Rightarrow> Inr (map np_sqrt vs))
      else Inr (map np_sqrt vs))"

text \<open>\<open>np.diagonal\<close> of a two-dimensional array.\<close>

definition diagonal :: "'a list list \<Rightarrow> 'a list" where
  "diagonal M = map (\<lambda>i. M ! i ! i) (filter (\<lambda>i. i < length (M ! i)) [0..<length M])"

text \<open>
  The block \<open>with warnings.catch_warnings(): ...\<close>: the filter that ignores the
  warning of the square root goes in front of the filters in force, the root is taken,
  and the filters are restored. The pattern of the filter is a literal text, matched at
  the start of the warning.
\<close>

definition std_dyn_block :: "wfilter list \<Rightarrow> npfloat list \<Rightarrow> wfilter list \<times> (error + npfloat list)" where
  "std_dyn_block filters crlb_dyn =
     (let saved = filters;
          filters = \<lparr>action = ActIgnore,
                     matches = (\<lambda>msg. take (length ''invalid value encountered in sqrt'') msg
                                        = ''invalid value encountered in sqrt'')\<rparr> # filters;
          r = np_sqrt_arr filters crlb_dyn
      in (saved, r))"

text \<open>
  The correlation matrix
  \<open>cov / (std[:, np.newaxis] * std[np.newaxis, :])\<close>: the outer product of the standard
  deviations, then the quotient element by element, the two matrices broadcast
  against each other.
\<close>

definition np_outer :: "wfilter list \<Rightarrow> npfloat list \<Rightarrow> error + npfloat list list" where
  "np_outer filters std =
     with_warnings filters
       (if list_ex (\<lambda>a. list_ex (mul_invalid a) std) std
        then [''invalid value encountered in multiply''] else [])
       (map (\<lambda>a. map (np_mul a) std) std)"

definition np_divide ::
    "wfilter list \<Rightarrow> npfloat list list \<Rightarrow> npfloat list list \<Rightarrow> error + npfloat list list" where
  "np_divide filters A B =
     (case broadcast_result (\<lambda>r1 r2. broadcast2 Pair r1 r2) A B of
        Inl e \<Rightarrow> Inl e
      | Inr P \<Rightarrow>
          with_warnings filters
            ((if list_ex (list_ex (\<lambda>ab. div_by_zero (fst ab) (snd ab))) P
              then [''divide by zero encountered in divide''] else [])
             @ (if list_ex (list_ex (\<lambda>ab. div_invalid (fst ab) (snd ab))) P
                then [''invalid value encountered in divide''] else []))
            (map (map (\<lambda>ab. np_truediv (fst ab) (snd ab))) P))"

definition corr_dyn_of ::
    "wfilter list \<Rightarrow> npfloat list list \<Rightarrow> npfloat list \<Rightarrow> error + npfloat list list" where
  "corr_dyn_of filters cov std =
     (case np_outer filters std of
        Inl e \<Rightarrow> Inl e
      | Inr outer \<Rightarrow> np_divide filters cov outer)"

text \<open>
  The matrix product \<open>A @ B\<close> of an array \<open>A\<close> with \<open>m\<close> columns and an array \<open>B\<close>: the
  rows of \<open>B\<close> are as many as the columns of \<open>A\<close>, or \<open>ValueError\<close> is raised. An entry
  is the sum, in order, of the products of a row and a column. An array without rows
  has no columns.
\<close>

definition dot_flagged :: "npfloat list \<Rightarrow> npfloat list \<Rightarrow> npfloat \<times> bool" where
  "dot_flagged row col =
     foldl (\<lambda>acc ab. (np_add (fst acc) (np_mul (fst ab) (snd ab)),
                       snd acc \<or> mul_invalid (fst ab) (snd ab)
                         \<or> add_invalid (fst acc) (np_mul (fst ab) (snd ab))))
       (Fin 0, False) (zip row col)"

definition ncols :: "'a list list \<Rightarrow> nat" where
  "ncols B = (if B = [] then 0 else length (hd B))"

definition np_matmul ::
    "wfilter list \<Rightarrow> nat \<Rightarrow> npfloat list list \<Rightarrow> npfloat list list \<Rightarrow> error + npfloat list list" where
  "np_matmul filters m A B =
     (if m \<noteq> length B then Inl ValueError
      else let P = map (\<lambda>row. map (\<lambda>j. dot_flagged row (map (\<lambda>brow. brow ! j) B))
                                 [0..<ncols B]) A
           in with_warnings filters
                (if list_ex (list_ex snd) P then [''invalid value encountered in matmul''] else [])
                (map (map fst) P))"

text \<open>
  The uncertainties of the mapped parameters. \<open>G\<close> is the gradient of
  \<open>free_to_mapped\<close> at the samples, indexed by free parameter, timepoint, group and
  position in the group; the transposition gives \<open>grad_all[i][ll, kk][j]\<close> as
  \<open>G[ll][kk][i][j]\<close>, and an index out of range raises \<open>IndexError\<close>. For group \<open>i\<close>
  and position \<open>j\<close> the entries are collected over the \<open>M\<close> free parameters and the
  \<open>N\<close> timepoints, reshaped to \<open>M\<close> rows of \<open>N\<close> and transposed; the standard deviations
  are the roots of the diagonal of \<open>grad @ cov @ grad.T\<close>.
\<close>

definition grad_entry :: "real list list list list \<Rightarrow> nat \<Rightarrow> nat \<Rightarrow> nat \<Rightarrow> nat \<Rightarrow> error + real" where
  "grad_entry G i ll kk j =
     (if ll < length G \<and> kk < length (G ! ll) \<and> i < length (G ! ll ! kk)
         \<and> j < length (G ! ll ! kk ! i)
      then Inr (G ! ll ! kk ! i ! j) else Inl IndexError)"

definition std_column ::
    "wfilter list \<Rightarrow> real list list list list \<Rightarrow> npfloat list list \<Rightarrow> nat \<Rightarrow> nat \<Rightarrow> nat \<Rightarrow> nat
      \<Rightarrow> error + npfloat list" where
  "std_column filters G cov M N i j =
     (case map_result (\<lambda>lk. grad_entry G i (fst lk) (snd lk) j) (List.product [0..<M] [0..<N]) of
        Inl e \<Rightarrow> Inl e
      | Inr flat \<Rightarrow>
          (let reshaped = map (\<lambda>ll. map (\<lambda>kk. Fin (flat ! (ll * N + kk))) [0..<N]) [0..<M];
               grad = map (\<lambda>kk. map (\<lambda>ll. reshaped ! ll ! kk) [0..<M]) [0..<N]
           in case np_matmul filters M grad cov of
                Inl e \<Rightarrow> Inl e
              | Inr gc \<Rightarrow>
                  (case np_matmul filters (ncols cov) gc reshaped of
                     Inl e \<Rightarrow> Inl e
                   | Inr gcg \<Rightarrow> np_sqrt_arr filters (diagonal gcg))))"

text \<open>
  One pass of the loop over the groups: the columns \<open>j\<close> below the number of columns of
  the group's array in the dictionary, and \<open>np.array(s).T\<close>, \<open>N\<close> rows with one entry for
  each column (and the empty array when there is no column).
\<close>

definition group_std ::
    "wfilter list \<Rightarrow> real list list list list \<Rightarrow> npfloat list list \<Rightarrow> nat \<Rightarrow> nat
      \<Rightarrow> (string \<times> nat \<times> real list list) list \<Rightarrow> nat \<times> string
      \<Rightarrow> error + string \<times> npfloat list list" where
  "group_std filters G cov M N mapped_params iname =
     (case map_of mapped_params (snd iname) of
        None \<Rightarrow> Inl KeyError
      | Some shape_rows \<Rightarrow>
          (case map_result (\<lambda>j. std_column filters G cov M N (fst iname) j)
                  [0..<fst shape_rows] of
             Inl e \<Rightarrow> Inl e
           | Inr s \<Rightarrow>
               Inr (snd iname,
                    if s = [] then [] else map (\<lambda>kk. map (\<lambda>col. col ! kk) s) [0..<N])))"

fun std_loop ::
    "(nat \<times> string \<Rightarrow> error + string \<times> npfloat list list) \<Rightarrow> (nat \<times> string) list
      \<Rightarrow> (string \<times> npfloat list list) list \<Rightarrow> error + (string \<times> npfloat list list) list" where
  "std_loop g [] std = Inr std"
| "std_loop g (iname # rest) std =
     (case g iname of
        Inl e \<Rightarrow> Inl e
      | Inr (name, v) \<Rightarrow> std_loop g rest (AList.update name v std))"

text \<open>
  The statements of \<open>dynRes_newton.__init__\<close> on the mapped parameters: the mapped
  parameters of the samples and their dictionary, the gradient of \<open>free_to_mapped\<close>
  (the transposition to three axes raises \<open>ValueError\<close> on the gradient of an empty
  vector, which has one axis), and the loop over the groups.
\<close>

definition newton_mapped ::
    "vm_methods \<Rightarrow> wfilter list \<Rightarrow> heap \<Rightarrow> nat \<Rightarrow> VariableMapping \<Rightarrow> npfloat list list
      \<Rightarrow> error + heap \<times> (string \<times> nat \<times> real list list) list
                  \<times> (string \<times> npfloat list list) list" where
  "newton_mapped M filters h samples v cov =
     (case lookup h samples of
        Some (CArr xs) \<Rightarrow>
          (case free_to_mapped M v xs of
             Inl e \<Rightarrow> Inl e
           | Inr p \<Rightarrow>
               (case mapped_to_dict M v (mapped_values xs p) of
                  Inl e \<Rightarrow> Inl e
                | Inr mapped_params \<Rightarrow>
                    (case gradient_nested h samples (free_to_mapped M v) of
                       (h', Inl e) \<Rightarrow> Inl e
                     | (h', Inr G) \<Rightarrow>
                         (if G = [] then Inl ValueError
                          else case std_loop
                                      (group_std filters G cov (length xs) (ntimes v) mapped_params)
                                      (enumerate 0 (mapped_names v)) [] of
                                 Inl e \<Rightarrow> Inl e
                               | Inr std \<Rightarrow> Inr (h', mapped_params, std)))))
      | _ \<Rightarrow> Inl TypeError)"

record dynRes_newton = dynRes +
  self_cov_dyn :: "npfloat list list"
  self_std_dyn :: "npfloat list"
  self_corr_dyn :: "npfloat list list"
  self_mapped_params :: "(string \<times> nat \<times> real list list) list"
  self_std :: "(string \<times> npfloat list list) list"

text \<open>
  \<open>dynRes_newton.__init__(samples, dyn, init)\<close>, with \<open>samples\<close> the address of a
  one-dimensional array. Parameters: numpy's pseudo-inverse; \<open>full_fwd\<close>, the forward
  model of the orchestrator, whose code is not among the sources (it reads the store
  at the orchestrator); the methods of the variable mapping; and the warnings filters
  in force.
\<close>

definition dynRes_newton_init ::
    "(npfloat list list \<Rightarrow> error + npfloat list list)
      \<Rightarrow> (heap \<Rightarrow> nat \<Rightarrow> real list \<Rightarrow> error + complex ndarray)
      \<Rightarrow> vm_methods \<Rightarrow> wfilter list \<Rightarrow> heap \<Rightarrow> nat \<Rightarrow> nat \<Rightarrow> (string \<times> nat) list
      \<Rightarrow> error + heap \<times> dynRes_newton" where
  "dynRes_newton_init pinv full_fwd M filters h samples dyn init =
     (case lookup h samples of
        Some (CArr xs) \<Rightarrow>
          (case dynRes_init h [xs] dyn init of
             Inl e \<Rightarrow> Inl e
           | Inr (h1, base) \<Rightarrow>
               (case lookup h1 dyn of
                  Some (CDyn d) \<Rightarrow>
                    (let dat = concat (data d) in
                     case calculate_lap_cov pinv filters h1 samples (full_fwd h1 dyn) dat of
                       (h2, Inl e) \<Rightarrow> Inl e
                     | (h2, Inr cov) \<Rightarrow>
                         (let crlb_dyn = diagonal cov in
                          case std_dyn_block filters crlb_dyn of
                            (filters', Inl e) \<Rightarrow> Inl e
                          | (filters', Inr std) \<Rightarrow>
                              (case corr_dyn_of filters' cov std of
                                 Inl e \<Rightarrow> Inl e
                               | Inr corr \<Rightarrow>
                                   (case newton_mapped M filters' h2 samples (vm d) cov of
                                      Inl e \<Rightarrow> Inl e
                                    | Inr (h3, mapped_params, mapped_std) \<Rightarrow>
                                        Inr (h3, \<lparr>self_data = self_data base,
                                                  self_dyn = self_dyn base,
                                                  self_init_x = self_init_x base,
                                                  self_cov_dyn = cov, self_std_dyn = std,
                                                  self_corr_dyn = corr,
                                                  self_mapped_params = mapped_params,
                                                  self_std = mapped_std\<rparr>)))))
                | _ \<Rightarrow> Inl AttributeError))
      | _ \<Rightarrow> Inl TypeError)"


section \<open>The script (fsl_dynmrs.py)\<close>

text \<open>
  The arguments of the command line that \<open>main\<close> reads before the fit, and the world
  it acts on: the directories by path with their entries, the lines waiting on the
  standard input, the lines printed, and the warnings filters.
\<close>

record args =
  arg_data :: string
  arg_basis :: string
  arg_output :: string
  arg_dyn_config :: string
  arg_time_variables :: "string list"
  arg_h2o :: "string option"
  arg_verbose :: bool
  arg_overwrite :: bool

record world =
  dirs :: "(string \<times> string list) list"
  stdin :: "string list"
  stdout :: "string list"
  warn_filters :: "wfilter list"

datatype outcome = Returned | Exited | Raised error

definition is_dir :: "world \<Rightarrow> string \<Rightarrow> bool" where
  "is_dir w p = (map_of (dirs w) p \<noteq> None)"

definition print :: "string \<Rightarrow> world \<Rightarrow> world" where
  "print line w = w\<lparr>stdout := stdout w @ [line]\<rparr>"

text \<open>\<open>shutil.rmtree\<close> removes the directory and the directories below it.\<close>

definition rmtree :: "string \<Rightarrow> world \<Rightarrow> world" where
  "rmtree p w =
     w\<lparr>dirs := filter (\<lambda>qe. fst qe \<noteq> p \<and> take (length p + 1) (fst qe) \<noteq> p @ ''/'') (dirs w)\<rparr>"

text \<open>\<open>mkdir(parents=True, exist_ok=True)\<close>: a directory that exists is left as it is.\<close>

definition mkdir :: "string \<Rightarrow> world \<Rightarrow> world" where
  "mkdir p w = (if is_dir w p then w else w\<lparr>dirs := dirs w @ [(p, [])]\<rparr>)"

definition upper_char :: "char \<Rightarrow> char" where
  "upper_char c =
     (case map_of (zip ''abcdefghijklmnopqrstuvwxyz'' ''ABCDEFGHIJKLMNOPQRSTUVWXYZ'') c of
        Some C \<Rightarrow> C
      | None \<Rightarrow> c)"

definition upper :: "string \<Rightarrow> string" where
  "upper s = map upper_char s"

text \<open>
  The check of the output folder (lines 102 to 118): the result is the outcome that
  ends the run, if any, and the world.
\<close>

definition prepare_output :: "args \<Rightarrow> world \<Rightarrow> outcome option \<times> world" where
  "prepare_output a w =
     (let overwrite = arg_overwrite a in
      if is_dir w (arg_output a) then
        (case (if \<not> overwrite then
                 (let w = print (''Folder '' @ [CHR 0x27] @ arg_output a @ [CHR 0x27] @ '' exists.''
                                  @ '' Are you sure you want to delete it? [Y,N]'') w
                  in case stdin w of
                       [] \<Rightarrow> (Inl EOFError, w)
                     | response # rest \<Rightarrow> (Inr (upper response = ''Y''), w\<lparr>stdin := rest\<rparr>))
               else (Inr overwrite, w)) of
           (Inl e, w) \<Rightarrow> (Some (Raised e), w)
         | (Inr overwrite, w) \<Rightarrow>
             (if \<not> overwrite then
                (Some Exited, print ''Please specify a different output folder name.'' w)
              else (None, mkdir (arg_output a) (rmtree (arg_output a) w))))
      else (None, mkdir (arg_output a) w))"

text \<open>
  \<open>main\<close>. Parameters: \<open>read_FID\<close>, the reader of the data file (the contents of
  files are not part of the world); \<open>describe\<close>, the two
  lines that show the shape and the tags of the data; \<open>fit_and_save\<close>, the rest of
  the script after the check of the water reference (lines 137 to 254), which builds
  the spectrum list, fits and writes the outputs.
\<close>

definition main ::
    "(string \<Rightarrow> error + 'd) \<Rightarrow> ('d \<Rightarrow> string list)
      \<Rightarrow> (args \<Rightarrow> 'd \<Rightarrow> world \<Rightarrow> outcome \<times> world) \<Rightarrow> args \<Rightarrow> world \<Rightarrow> outcome \<times> world" where
  "main read_FID describe fit_and_save a w =
     (let w = (if \<not> arg_verbose a
               then w\<lparr>warn_filters := \<lparr>action = ActIgnore, matches = (\<lambda>msg. True)\<rparr> # warn_filters w\<rparr>
               else w)
      in case prepare_output a w of
           (Some out, w) \<Rightarrow> (out, w)
         | (None, w) \<Rightarrow>
             (let w = (if arg_verbose a
                       then print (''  '' @ arg_data a) (print ''--->> Read input data'' w)
                       else w)
              in case read_FID (arg_data a) of
                   Inl e \<Rightarrow> (Raised e, w)
                 | Inr d \<Rightarrow>
                     (let w = (if arg_verbose a then foldl (\<lambda>w line. print line w) w (describe d) else w)
                      in if arg_h2o a \<noteq> None then
                           (Raised (NotImplementedError
                              ''H2O referencing not yet implemented for dynamic fitting.''), w)
                         else fit_and_save a d w)))"

section \<open>A concrete fit\<close>

text \<open>
  A small instance on which the definitions are evaluated: three parameter groups
  (fixed concentrations, a linear dynamic model with two coefficients, and a group
  whose behaviour is none of the known ones), two timepoints, one metabolite. The
  store holds the free parameters at address 0, the two spectra at 1 and 2, the
  spectrum list at 3, the orchestrator at 4 and the initial mapped parameters at 5.
\<close>

definition example_vm :: VariableMapping where
  "example_vm =
     \<lparr>mapped_names = [''conc'', ''gamma'', ''eps''],
      mapped_sizes = [1, 1, 1],
      Parameters =
        [(''conc'', BehStr ''fixed''),
         (''gamma'', BehDict [(''dynamic'', CStr ''model_lin''),
                              (''params'', CList [''c_amp'', ''c_slope''])]),
         (''eps'', BehStr ''linear'')],
      ntimes = 2,
      time_variable = [[0, 1]]\<rparr>"

definition example_dyn :: dynMRS where
  "example_dyn =
     \<lparr>free_names = [''conc_0'', ''gamma_c_amp'', ''gamma_c_slope''],
      vm = example_vm,
      dyn_mapped_names = [''conc_0'', ''gamma_0'', ''eps_0''],
      metabolite_names = [''NAA''],
      time_var = [[0, 1]],
      data = [[3], [5]],
      mrs_list = 3\<rparr>"

definition example_heap :: heap where
  "example_heap =
     [CArr [2, 1, 0], CMrs [3], CMrs [5], CMrsList [1, 2], CDyn example_dyn,
      CNested [[[5], [1], [0]], [[5], [3], [0]]]]"

definition example_init :: "(string \<times> nat) list" where
  "example_init = [(''x'', 5)]"


definition example_noisy_cov :: "npfloat list list" where
  "example_noisy_cov =
     [[Fin 4, Fin 1, Fin 0], [Fin 1, Fin (- 1), Fin 0], [Fin 0, Fin 0, Fin 0]]"

definition example_noisy_pinv :: "npfloat list list \<Rightarrow> error + npfloat list list" where
  "example_noisy_pinv C = Inr example_noisy_cov"

definition example_fwd :: "heap \<Rightarrow> nat \<Rightarrow> real list \<Rightarrow> error + complex ndarray" where
  "example_fwd h a x = Inr (Fresh [complex_of_real (x ! 0), complex_of_real (x ! 0)])"

text \<open>
  Methods of the variable mapping for the instance: the mapped parameters of a free
  vector are the concentration, the line \<open>c_amp + c_slope * t\<close> at the timepoints
  \<open>t = 0, 1\<close> and the constant zero; the dictionary gives each group its column of the
  mapped parameters; the free parameters of a mapped trajectory are the values of its
  first timepoint.
\<close>

definition example_methods :: vm_methods where
  "example_methods =
     \<lparr>free_to_mapped =
        (\<lambda>v fp. Inr (map (\<lambda>t. [Fresh [fp ! 0], Fresh [fp ! 1 + fp ! 2 * t], Fresh [0]]) [0, 1])),
      mapped_to_free = (\<lambda>v X. case X of [] \<Rightarrow> Inl IndexError | X0 # rest \<Rightarrow> Inr (concat X0)),
      mapped_to_dict =
        (\<lambda>v X. Inr (map (\<lambda>iname. (snd iname, mapped_sizes v ! fst iname,
                                      map (\<lambda>row. row ! fst iname) X))
                       (enumerate 0 (mapped_names v))))\<rparr>"

text \<open>
  Two functions for the gradient: the square of the first coordinate, and the
  function that returns its argument.
\<close>

definition example_square :: "real list \<Rightarrow> error + complex ndarray" where
  "example_square x = Inr (Fresh [complex_of_real (x ! 0 * x ! 0)])"

definition example_identity :: "real list \<Rightarrow> error + complex ndarray" where
  "example_identity x = Inr (View [0..<length x])"

definition example_linear :: "real list \<Rightarrow> error + complex ndarray" where
  "example_linear x = Inr (Fresh [complex_of_real (x ! 0 + 3 * x ! 1)])"

text \<open>The least positive binary64 number.\<close>

definition example_tiny :: real where
  "example_tiny = 1 / 2 ^ 1074"


definition example_heap' :: heap where
  "example_heap' =
     example_heap @ [CMrs [3], CMrs [5], CMrsList [6, 7], CDyn (example_dyn\<lparr>mrs_list := 8\<rparr>)]"

definition example_res :: dynRes where
  "example_res =
     \<lparr>self_data = \<lparr>columns = [''conc_0'', ''gamma_c_amp'', ''gamma_c_slope''],
                    rows = [[2, 1, 0]], index_name = ''samples''\<rparr>,
      self_dyn = 9, self_init_x = 5\<rparr>"

definition example_newton_res :: dynRes_newton where
  "example_newton_res =
     \<lparr>self_data = self_data example_res, self_dyn = 9, self_init_x = 5,
      self_cov_dyn = example_noisy_cov,
      self_std_dyn = [Fin 2, NaN, Fin 0],
      self_corr_dyn = [[Fin 1, NaN, NaN], [NaN, NaN, NaN], [NaN, NaN, NaN]],
      self_mapped_params =
        [(''conc'', 1, [[2], [2]]), (''gamma'', 1, [[1], [1]]), (''eps'', 1, [[0], [0]])],
      self_std =
        [(''conc'', [[Fin 2], [Fin 2]]), (''gamma'', [[NaN], [NaN]]),
         (''eps'', [[Fin 0], [Fin 0]])]\<rparr>"

text \<open>A result with two samples, as the sampler gives it.\<close>

definition example_mcmc_res :: dynRes where
  "example_mcmc_res =
     \<lparr>self_data = \<lparr>columns = [''conc_0'', ''gamma_c_amp'', ''gamma_c_slope''],
                    rows = [[2, 1, 0], [4, 2, 1]], index_name = ''samples''\<rparr>,
      self_dyn = 9, self_init_x = 5\<rparr>"

definition example_state :: pystate where
  "example_state = \<lparr>store = example_heap', files = []\<rparr>"

definition example_results :: results where
  "example_results =
     [(''conc'', [(''metab'', Names [''NAA'']), (''Values'', Vals [Fin 2])]),
      (''gamma'', [(''name'', Names [''gamma_0'']), (''c_amp'', Vals [Fin 1]),
                   (''c_slope'', Vals [Fin 0])]),
      (''eps'', [])]"

text \<open>
  The store after the result was built and every object of the original orchestrator
  was changed: a spectrum, the spectrum list and the orchestrator itself.
\<close>

definition example_heap_mutated :: heap where
  "example_heap_mutated =
     example_heap'[1 := CMrs [99], 3 := CMrsList [2],
                   4 := CDyn (example_dyn\<lparr>metabolite_names := [''Cr''], data := []\<rparr>)]"

text \<open>
  A run of the script with a water reference, on a world where the output folder
  exists and holds a file.
\<close>

definition example_args :: args where
  "example_args =
     \<lparr>arg_data = ''data.nii.gz'', arg_basis = ''basis'', arg_output = ''out'',
      arg_dyn_config = ''config.py'', arg_time_variables = [''bvals''],
      arg_h2o = Some ''ref.H2O'', arg_verbose = False, arg_overwrite = False\<rparr>"

definition example_world :: "string \<Rightarrow> world" where
  "example_world answer =
     \<lparr>dirs = [(''out'', [''dyn_results.csv''])], stdin = [answer], stdout = [], warn_filters = []\<rparr>"

definition example_read_FID :: "string \<Rightarrow> error + unit" where
  "example_read_FID p = Inr ()"

definition example_describe :: "unit \<Rightarrow> string list" where
  "example_describe d = []"

definition example_fit_and_save :: "args \<Rightarrow> unit \<Rightarrow> world \<Rightarrow> outcome \<times> world" where
  "example_fit_and_save a d w = (Returned, w\<lparr>dirs := AList.update (arg_output a) [''options.txt''] (dirs w)\<rparr>)"

section \<open>Properties of the numerical gradient\<close>

lemma lookup_append_old: "a < length h \<Longrightarrow> lookup (h @ cs) a = lookup h a"
  by (simp add: lookup_def nth_append)

lemma lookup_SomeD: "lookup h a = Some c \<Longrightarrow> a < length h \<and> h ! a = c"
  by (simp add: lookup_def split: if_splits)

text \<open>
  The product with the machine epsilon: exact from \<open>2\<^sup>-\<^sup>9\<^sup>9\<^sup>9\<close> on, zero up to
  \<open>2\<^sup>-\<^sup>1\<^sup>0\<^sup>5\<^sup>2\<close>, and not zero above.
\<close>

lemma times_float32_eps_normal:
  assumes "1 / 2 ^ 999 \<le> a"
  shows "times_float32_eps a = a / 2 ^ 23"
proof -
  have "(1::real) / 2 ^ 1022 = 1 / 2 ^ 999 * (1 / 2 ^ 23)"
    by (simp add: power_add[symmetric])
  also have "\<dots> \<le> a * (1 / 2 ^ 23)"
    using assms by (intro mult_right_mono) simp_all
  finally have "\<not> a * float32_eps < 1 / 2 ^ 1022" unfolding float32_eps_def by (rule leD)
  then have "times_float32_eps a = a * float32_eps"
    unfolding times_float32_eps_def by (rule if_not_P)
  then show ?thesis by (simp add: float32_eps_def)
qed

lemma round_half_even_small:
  assumes "0 \<le> q" and "q \<le> 1 / 2"
  shows "round_half_even q = 0"
proof -
  have fl: "\<lfloor>q\<rfloor> = 0" using assms by (simp add: floor_eq_iff)
  show ?thesis using assms by (simp add: round_half_even_def fl Let_def)
qed

lemma round_half_even_large:
  assumes "1 / 2 < q"
  shows "0 < round_half_even q"
proof -
  have "0 \<le> q" using assms by simp
  then have n: "0 \<le> \<lfloor>q\<rfloor>" by simp
  show ?thesis
  proof (cases "\<lfloor>q\<rfloor> = 0")
    case True
    then show ?thesis using assms by (simp add: round_half_even_def Let_def)
  next
    case False
    with n have "0 < \<lfloor>q\<rfloor>" by linarith
    moreover have "\<lfloor>q\<rfloor> \<le> round_half_even q" by (simp add: round_half_even_def Let_def)
    ultimately show ?thesis by linarith
  qed
qed

lemma scale_subnormal: "a * float32_eps * 2 ^ 1074 = a * 2 ^ 1051"
proof -
  have "(2::real) ^ 1074 = 2 ^ 23 * 2 ^ 1051" by (simp add: power_add[symmetric])
  then show ?thesis by (simp add: float32_eps_def)
qed

lemma times_float32_eps_underflow:
  assumes "0 \<le> a" and "a \<le> 1 / 2 ^ 1052"
  shows "times_float32_eps a = 0"
proof -
  have "a * 2 ^ 1051 \<le> 1 / 2 ^ 1052 * 2 ^ 1051"
    using assms(2) by (intro mult_right_mono) simp_all
  also have "\<dots> = 1 / 2" 
  proof -
    have "(2::real) ^ 1052 = 2 * 2 ^ 1051" by simp
    then show ?thesis by simp
  qed
  finally have q: "a * 2 ^ 1051 \<le> 1 / 2" .
  have q0: "0 \<le> a * 2 ^ 1051" using assms(1) by simp
  have r: "round_half_even (a * float32_eps * 2 ^ 1074) = 0"
    unfolding scale_subnormal by (rule round_half_even_small[OF q0 q])
  have "a * float32_eps \<le> 1 / 2 ^ 1052 * (1 / 2 ^ 23)"
    unfolding float32_eps_def using assms(2) by (intro mult_right_mono) simp_all
  also have "\<dots> = 1 / 2 ^ 1075" by (simp add: power_add[symmetric])
  also have "\<dots> < 1 / 2 ^ 1022"
    by (intro divide_strict_left_mono power_strict_increasing) simp_all
  finally have "a * float32_eps < 1 / 2 ^ 1022" .
  then have "times_float32_eps a = of_int (round_half_even (a * float32_eps * 2 ^ 1074)) / 2 ^ 1074"
    unfolding times_float32_eps_def by (rule if_P)
  then show ?thesis unfolding r by simp
qed

lemma times_float32_eps_positive:
  assumes "1 / 2 ^ 1052 < a"
  shows "0 < times_float32_eps a"
proof -
  have a: "0 < a" using assms by (rule less_trans[rotated]) simp
  have "1 / 2 = 1 / 2 ^ 1052 * (2::real) ^ 1051"
  proof -
    have "(2::real) ^ 1052 = 2 * 2 ^ 1051" by simp
    then show ?thesis by simp
  qed
  also have "\<dots> < a * 2 ^ 1051"
    using assms by (intro mult_strict_right_mono) simp_all
  finally have "0 < round_half_even (a * float32_eps * 2 ^ 1074)"
    unfolding scale_subnormal by (rule round_half_even_large)
  then have r: "(0::real) < of_int (round_half_even (a * float32_eps * 2 ^ 1074)) / 2 ^ 1074"
    by (intro divide_pos_pos) simp_all
  have e: "0 < a * float32_eps" using a by (simp add: float32_eps_def)
  show ?thesis
  proof (cases "a * float32_eps < 1 / 2 ^ 1022")
    case True
    then have "times_float32_eps a = of_int (round_half_even (a * float32_eps * 2 ^ 1074)) / 2 ^ 1074"
      unfolding times_float32_eps_def by (rule if_P)
    with r show ?thesis by (simp only:)
  next
    case False
    then have "times_float32_eps a = a * float32_eps"
      unfolding times_float32_eps_def by (rule if_not_P)
    with e show ?thesis by (simp only:)
  qed
qed

text \<open>A pass of the loop that returns leaves the working array as it found it.\<close>

lemma gradient_step_ok:
  assumes "gradient_step f quot i x = (x', Inr g)"
    and "p = times_float32_eps \<bar>x ! i\<bar>" and "e = (if p = 0 then 1 / 100000 else p)"
  shows "x' = x"
    and "\<exists>r0 r1. f x = Inr r0 \<and> f (x[i := x ! i + e]) = Inr r1
           \<and> quot (x[i := x ! i + e]) r1 r0 e = Inr g"
  using assms
  by (auto simp: gradient_step_def Let_def split: sum.splits if_splits)

lemma gradient_loop_ok:
  assumes "gradient_loop f quot is x acc = (x', Inr g)"
  shows "x' = x \<and> length g = length acc + length is \<and> take (length acc) g = acc
         \<and> (\<forall>k < length is. gradient_step f quot (is ! k) x = (x, Inr (g ! (length acc + k))))"
  using assms
proof (induction "is" arbitrary: x acc)
  case Nil
  then show ?case by simp
next
  case (Cons i "is")
  from Cons.prems obtain x1 g1 where
    st: "gradient_step f quot i x = (x1, Inr g1)" and
    rest: "gradient_loop f quot is x1 (acc @ [g1]) = (x', Inr g)"
    by (auto split: prod.splits sum.splits)
  from st have x1: "x1 = x" by (rule gradient_step_ok(1)[OF _ refl refl])
  from Cons.IH[OF rest] have
    ih: "x' = x1" "length g = length (acc @ [g1]) + length is"
        "take (length (acc @ [g1])) g = acc @ [g1]"
        "\<forall>k < length is. gradient_step f quot (is ! k) x1 = (x1, Inr (g ! (length (acc @ [g1]) + k)))"
    by auto
  have tk: "take (length acc) g = acc"
  proof -
    have "take (length acc) (take (length (acc @ [g1])) g) = take (length acc) (acc @ [g1])"
      using ih(3) by simp
    then show ?thesis by (simp add: min_def)
  qed
  have g1: "g ! length acc = g1"
  proof -
    have "g ! length acc = take (length (acc @ [g1])) g ! length acc" by simp
    also have "\<dots> = (acc @ [g1]) ! length acc" using ih(3) by simp
    finally show ?thesis by simp
  qed
  have "\<forall>k < length (i # is). gradient_step f quot ((i # is) ! k) x = (x, Inr (g ! (length acc + k)))"
  proof (intro allI impI)
    fix k assume k: "k < length (i # is)"
    show "gradient_step f quot ((i # is) ! k) x = (x, Inr (g ! (length acc + k)))"
    proof (cases k)
      case 0
      then show ?thesis using st x1 g1 by simp
    next
      case (Suc m)
      then show ?thesis using ih(4) k x1 by simp
    qed
  qed
  then show ?case using ih(1,2) x1 tk by simp
qed

lemma gradient_result:
  assumes "lookup h a = Some (CArr xs)" and "gradient h a f = (h', Inr g)"
  shows "gradient_loop f array_quotient [0..<length xs] xs [] = (xs, Inr g) \<and> h' = h @ [CArr xs]"
proof -
  from assms obtain x' g0 where
    lp: "gradient_loop f array_quotient [0..<length xs] xs [] = (x', Inr g0)" and
    h': "h' = h @ [CArr x']" and arr: "np_array g0 = Inr g"
    by (auto simp: gradient_def split: prod.splits sum.splits)
  from arr have "g0 = g" by (simp add: np_array_def split: if_splits)
  moreover from gradient_loop_ok[OF lp] have "x' = xs" by simp
  ultimately show ?thesis using lp h' by simp
qed

text \<open>
  Claim C4, as amended. For every coordinate \<open>i\<close> of the input vector, the step of the
  forward difference is the binary64 product of \<open>\<bar>x\<^sub>i\<bar>\<close> and the binary32 machine
  epsilon when that product is not zero, and \<open>1e-5\<close> when it is zero; the product is
  \<open>\<bar>x\<^sub>i\<bar> / 2\<^sup>2\<^sup>3\<close> for \<open>\<bar>x\<^sub>i\<bar>\<close> from \<open>2\<^sup>-\<^sup>9\<^sup>9\<^sup>9\<close> on, and it is zero, so that the step is
  \<open>1e-5\<close>, for \<open>x\<^sub>i = 0\<close> and for every \<open>\<bar>x\<^sub>i\<bar>\<close> up to \<open>2\<^sup>-\<^sup>1\<^sup>0\<^sup>5\<^sup>2\<close>. When the array that \<open>f\<close>
  returned at \<open>x\<close> does not show coordinate \<open>i\<close> of the working array, entry \<open>i\<close> of the
  result is the difference of \<open>f\<close> at the vector with \<open>x\<^sub>i\<close> incremented by the step and
  \<open>f\<close> at the vector itself, divided by the step.
\<close>

theorem gradient_forward_difference:
  assumes "lookup h a = Some (CArr xs)" and "gradient h a f = (h', Inr g)" and "i < length xs"
    and "p = times_float32_eps \<bar>xs ! i\<bar>" and "e = (if p = 0 then 1 / 100000 else p)"
    and "f xs = Inr r0"
    and "read_array complex_of_real (xs[i := xs ! i + e]) r0 = read_array complex_of_real xs r0"
  shows "(\<exists>r1 d. f (xs[i := xs ! i + e]) = Inr r1
            \<and> arr_sub (read_array complex_of_real (xs[i := xs ! i + e]) r1)
                       (read_array complex_of_real xs r0) = Inr d
            \<and> g ! i = map (\<lambda>z. z / complex_of_real e) d)
         \<and> (1 / 2 ^ 999 \<le> \<bar>xs ! i\<bar> \<longrightarrow> e = \<bar>xs ! i\<bar> / 2 ^ 23)
         \<and> (\<bar>xs ! i\<bar> \<le> 1 / 2 ^ 1052 \<longrightarrow> e = 1 / 100000)
         \<and> (1 / 2 ^ 1052 < \<bar>xs ! i\<bar> \<longrightarrow> e = p)
         \<and> 0 < e"
proof -
  from gradient_result[OF assms(1,2)] have
    lp: "gradient_loop f array_quotient [0..<length xs] xs [] = (xs, Inr g)" by simp
  from gradient_loop_ok[OF lp] assms(3) have
    "gradient_step f array_quotient ([0..<length xs] ! i) xs = (xs, Inr (g ! i))" by simp
  with assms(3) have st: "gradient_step f array_quotient i xs = (xs, Inr (g ! i))" by simp
  from gradient_step_ok(2)[OF st assms(4,5)] assms(6) obtain r1 where
    r1: "f (xs[i := xs ! i + e]) = Inr r1" and
    q: "array_quotient (xs[i := xs ! i + e]) r1 r0 e = Inr (g ! i)" by auto
  from q obtain d where
    d: "arr_sub (read_array complex_of_real (xs[i := xs ! i + e]) r1)
                (read_array complex_of_real (xs[i := xs ! i + e]) r0) = Inr d" and
    gi: "g ! i = map (\<lambda>z. z / complex_of_real e) d"
    by (auto simp: array_quotient_def split: sum.splits)
  have first: "\<exists>r1 d. f (xs[i := xs ! i + e]) = Inr r1
            \<and> arr_sub (read_array complex_of_real (xs[i := xs ! i + e]) r1)
                       (read_array complex_of_real xs r0) = Inr d
            \<and> g ! i = map (\<lambda>z. z / complex_of_real e) d"
    using r1 d gi unfolding assms(7) by blast
  have normal: "e = \<bar>xs ! i\<bar> / 2 ^ 23" if "1 / 2 ^ 999 \<le> \<bar>xs ! i\<bar>"
  proof -
    have pv: "p = \<bar>xs ! i\<bar> / 2 ^ 23"
      unfolding assms(4) by (rule times_float32_eps_normal[OF that])
    have "0 < \<bar>xs ! i\<bar>" using that by (rule less_le_trans[rotated]) simp
    then have "0 < \<bar>xs ! i\<bar> / 2 ^ 23" by (intro divide_pos_pos) simp_all
    then have "p \<noteq> 0" unfolding pv by simp
    then have "e = p" using assms(5) by simp
    then show ?thesis unfolding pv .
  qed
  have under: "e = 1 / 100000" if "\<bar>xs ! i\<bar> \<le> 1 / 2 ^ 1052"
  proof -
    have "p = 0" unfolding assms(4) by (rule times_float32_eps_underflow[OF _ that]) simp
    then show ?thesis using assms(5) by simp
  qed
  have pos: "0 < p" if "1 / 2 ^ 1052 < \<bar>xs ! i\<bar>"
    unfolding assms(4) by (rule times_float32_eps_positive[OF that])
  have between: "e = p" if "1 / 2 ^ 1052 < \<bar>xs ! i\<bar>"
    using pos[OF that] assms(5) by simp
  have "0 < e"
  proof (cases "\<bar>xs ! i\<bar> \<le> 1 / 2 ^ 1052")
    case True
    then show ?thesis using under by simp
  next
    case False
    then show ?thesis using pos between by simp
  qed
  with first normal under between show ?thesis by blast
qed

text \<open>
  Claim C5. After \<open>gradient\<close> returns, the caller's array holds the values it held at
  entry (every cell of the store that existed at entry is unchanged), and the working
  copy has every perturbed coordinate restored. The caller's array is untouched also
  when the call raises.
\<close>

theorem gradient_preserves_caller_array:
  assumes "lookup h a = Some (CArr xs)" and "gradient h a f = (h', r)"
  shows "lookup h' a = Some (CArr xs)
         \<and> (\<forall>b < length h. lookup h' b = lookup h b)
         \<and> (\<forall>g. r = Inr g \<longrightarrow> lookup h' (length h) = Some (CArr xs))"
proof -
  from assms obtain x' where h': "h' = h @ [CArr x']"
    by (auto simp: gradient_def split: prod.splits sum.splits)
  from assms(1) have a: "a < length h" by (simp add: lookup_SomeD)
  have old: "\<forall>b < length h. lookup h' b = lookup h b"
    using h' by (simp add: lookup_append_old)
  have "lookup h' (length h) = Some (CArr xs)" if "r = Inr g" for g
  proof -
    from assms(2) that have "gradient h a f = (h', Inr g)" by simp
    from gradient_result[OF assms(1) this] show ?thesis by (simp add: lookup_def)
  qed
  with old a assms(1) show ?thesis by simp
qed

text \<open>
  The claim as it was made gives the step \<open>\<bar>x\<^sub>i\<bar>\<close> times the machine epsilon for every
  \<open>x\<^sub>i\<close> that is not zero, and the forward difference of \<open>f\<close> for every \<open>f\<close>. At the least
  positive float the product underflows to zero and the step is \<open>1e-5\<close>: the entry for
  the square is \<open>2 x + 1e-5\<close>, not \<open>2 x + x / 2\<^sup>2\<^sup>3\<close>. For the function that returns its
  argument the first result shows the perturbed coordinate, and the entry is \<open>0\<close>, not
  the quotient \<open>1\<close>.
\<close>

lemma example_tiny_bounds:
  "0 < example_tiny" "example_tiny \<le> 1 / 2 ^ 1052" "example_tiny * float32_eps < 1 / 100000"
proof -
  show pos: "0 < example_tiny" by (simp add: example_tiny_def)
  show "example_tiny \<le> 1 / 2 ^ 1052"
    unfolding example_tiny_def
    by (intro divide_left_mono power_increasing) simp_all
  have "example_tiny \<le> 1 / 2 ^ 0"
    unfolding example_tiny_def
    by (intro divide_left_mono power_increasing) simp_all
  then have "example_tiny \<le> 1" by simp
  then have "example_tiny * float32_eps \<le> 1 * float32_eps"
    by (intro mult_right_mono) (simp_all add: float32_eps_def)
  also have "\<dots> < 1 / 100000" by (simp add: float32_eps_def)
  finally show "example_tiny * float32_eps < 1 / 100000" .
qed

lemma square_quotient:
  assumes "e \<noteq> 0"
  shows "(complex_of_real ((t + e) * (t + e)) - complex_of_real (t * t)) / complex_of_real e
           = complex_of_real (2 * t + e)"
proof -
  have "((t + e) * (t + e) - t * t) / e = 2 * t + e"
    using assms by (simp add: field_simps)
  then have "complex_of_real (((t + e) * (t + e) - t * t) / e) = complex_of_real (2 * t + e)"
    by (rule arg_cong)
  then show ?thesis by (simp only: of_real_divide of_real_diff)
qed

theorem gradient_step_counterexample:
  "gradient [CArr [example_tiny]] 0 example_square
     = ([CArr [example_tiny], CArr [example_tiny]],
        Inr [[complex_of_real (2 * example_tiny + 1 / 100000)]])
   \<and> example_tiny \<noteq> 0
   \<and> complex_of_real (2 * example_tiny + 1 / 100000)
       \<noteq> (complex_of_real ((example_tiny + \<bar>example_tiny\<bar> * float32_eps)
                              * (example_tiny + \<bar>example_tiny\<bar> * float32_eps))
            - complex_of_real (example_tiny * example_tiny))
           / complex_of_real (\<bar>example_tiny\<bar> * float32_eps)
   \<and> gradient [CArr [2]] 0 example_identity = ([CArr [2], CArr [2]], Inr [[0]])
   \<and> (complex_of_real (2 + \<bar>2\<bar> * float32_eps) - complex_of_real 2)
         / complex_of_real (\<bar>2\<bar> * float32_eps) = 1"
proof -
  have z: "times_float32_eps \<bar>example_tiny\<bar> = 0"
    using example_tiny_bounds(1,2) by (intro times_float32_eps_underflow) simp_all
  have st: "gradient_step example_square array_quotient 0 [example_tiny]
              = ([example_tiny], Inr [complex_of_real (2 * example_tiny + 1 / 100000)])"
    using square_quotient[of "1 / 100000" example_tiny]
    by (simp add: gradient_step_def Let_def z example_square_def array_quotient_def read_array_def
        arr_sub_def broadcast2_def)
  have a: "gradient [CArr [example_tiny]] 0 example_square
     = ([CArr [example_tiny], CArr [example_tiny]],
        Inr [[complex_of_real (2 * example_tiny + 1 / 100000)]])"
    by (simp add: gradient_def lookup_def st np_array_def)
  have b: "example_tiny \<noteq> 0" using example_tiny_bounds(1) by simp
  have ne: "example_tiny * float32_eps \<noteq> 0" using b by (simp add: float32_eps_def)
  have c: "complex_of_real (2 * example_tiny + 1 / 100000)
       \<noteq> (complex_of_real ((example_tiny + \<bar>example_tiny\<bar> * float32_eps)
                              * (example_tiny + \<bar>example_tiny\<bar> * float32_eps))
            - complex_of_real (example_tiny * example_tiny))
           / complex_of_real (\<bar>example_tiny\<bar> * float32_eps)"
  proof -
    have abs: "\<bar>example_tiny\<bar> = example_tiny" using example_tiny_bounds(1) by simp
    have "2 * example_tiny + 1 / 100000 \<noteq> 2 * example_tiny + example_tiny * float32_eps"
      using example_tiny_bounds(3) by simp
    then show ?thesis
      unfolding abs square_quotient[OF ne] of_real_eq_iff .
  qed
  have p2: "times_float32_eps 2 = 2 / 2 ^ 23"
    using times_float32_eps_normal[of 2] by simp
  have st2: "gradient_step example_identity array_quotient 0 [2] = ([2], Inr [0])"
    by (simp add: gradient_step_def Let_def p2 example_identity_def array_quotient_def read_array_def
        arr_sub_def broadcast2_def)
  have d: "gradient [CArr [2]] 0 example_identity = ([CArr [2], CArr [2]], Inr [[0]])"
    by (simp add: gradient_def lookup_def st2 np_array_def)
  have e: "(complex_of_real (2 + \<bar>2\<bar> * float32_eps) - complex_of_real 2)
         / complex_of_real (\<bar>2\<bar> * float32_eps) = 1"
    by (simp add: float32_eps_def)
  from a b c d e show ?thesis by (intro conjI)
qed

theorem gradient_forward_difference_witness:
  "lookup [CArr [2, 0]] 0 = Some (CArr [2, 0])
   \<and> gradient [CArr [2, 0]] 0 example_linear = ([CArr [2, 0], CArr [2, 0]], Inr [[1], [3]])
   \<and> example_linear [2, 0] = Inr (Fresh [2])
   \<and> example_linear [2 + 2 / 2 ^ 23, 0] = Inr (Fresh [complex_of_real (2 + 2 / 2 ^ 23)])
   \<and> example_linear [2, 1 / 100000] = Inr (Fresh [complex_of_real (2 + 3 / 100000)])
   \<and> [[1], [3]] ! 0
        = map (\<lambda>z. z / complex_of_real (2 / 2 ^ 23)) [complex_of_real (2 + 2 / 2 ^ 23) - 2]
   \<and> [[1], [3]] ! 1
        = map (\<lambda>z. z / complex_of_real (1 / 100000)) [complex_of_real (2 + 3 / 100000) - 2]
   \<and> times_float32_eps \<bar>[2, 0] ! 0\<bar> = 2 / 2 ^ 23
   \<and> times_float32_eps \<bar>[2, 0] ! 1\<bar> = 0"
proof -
  have p0: "times_float32_eps 2 = 2 / 2 ^ 23"
    using times_float32_eps_normal[of 2] by simp
  have p1: "times_float32_eps 0 = 0"
    by (intro times_float32_eps_underflow) simp_all
  have hl: "lookup [CArr [2, 0]] 0 = Some (CArr [2, 0])" by (simp add: lookup_def)
  have s0: "gradient_step example_linear array_quotient 0 [2, 0] = ([2, 0], Inr [1])"
    by (simp add: gradient_step_def Let_def p0 example_linear_def array_quotient_def read_array_def
        arr_sub_def broadcast2_def)
  have s1: "gradient_step example_linear array_quotient (Suc 0) [2, 0] = ([2, 0], Inr [3])"
    by (simp add: gradient_step_def Let_def p1 example_linear_def array_quotient_def read_array_def
        arr_sub_def broadcast2_def)
  have hg: "gradient [CArr [2, 0]] 0 example_linear = ([CArr [2, 0], CArr [2, 0]], Inr [[1], [3]])"
    by (simp add: gradient_def lookup_def upt_rec s0 s1 np_array_def)
  have f0: "example_linear [2, 0] = Inr (Fresh [2])" by (simp add: example_linear_def)
  have e0: "2 / 2 ^ 23 = (if times_float32_eps \<bar>[2, 0] ! 0\<bar> = 0 then 1 / 100000
                           else times_float32_eps \<bar>[2, 0] ! 0\<bar>)" 
    by (simp add: p0)
  have e1: "1 / 100000 = (if times_float32_eps \<bar>[2, 0] ! 1\<bar> = 0 then 1 / 100000
                           else times_float32_eps \<bar>[2, 0] ! 1\<bar>)"
    by (simp add: p1)
  have n0: "read_array complex_of_real ([2, 0][0 := [2, 0] ! 0 + 2 / 2 ^ 23]) (Fresh [2])
              = read_array complex_of_real [2, 0] (Fresh [2])"
    by (simp add: read_array_def)
  have n1: "read_array complex_of_real ([2, 0][1 := [2, 0] ! 1 + 1 / 100000]) (Fresh [2])
              = read_array complex_of_real [2, 0] (Fresh [2])"
    by (simp add: read_array_def)
  have i0: "(0::nat) < length [2, 0::real]" and i1: "(1::nat) < length [2, 0::real]" by simp_all
  note t0 = gradient_forward_difference[OF hl hg i0 refl e0 f0 n0]
  note t1 = gradient_forward_difference[OF hl hg i1 refl e1 f0 n1]
  have v0: "example_linear [2 + 2 / 2 ^ 23, 0] = Inr (Fresh [complex_of_real (2 + 2 / 2 ^ 23)])"
    by (simp add: example_linear_def)
  have v1: "example_linear [2, 1 / 100000] = Inr (Fresh [complex_of_real (2 + 3 / 100000)])"
    by (simp add: example_linear_def)
  from t0 v0 have g0: "[[1], [3]] ! 0
        = map (\<lambda>z. z / complex_of_real (2 / 2 ^ 23)) [complex_of_real (2 + 2 / 2 ^ 23) - 2]"
    by (auto simp: read_array_def arr_sub_def broadcast2_def)
  from t1 v1 have g1: "[[1], [3]] ! 1
        = map (\<lambda>z. z / complex_of_real (1 / 100000)) [complex_of_real (2 + 3 / 100000) - 2]"
    by (auto simp: read_array_def arr_sub_def broadcast2_def)
  from hl hg f0 v0 v1 g0 g1 p0 p1 show ?thesis by simp
qed

theorem gradient_preserves_caller_array_witness:
  "lookup [CArr [2, 0]] 0 = Some (CArr [2, 0])
   \<and> gradient [CArr [2, 0]] 0 example_linear = ([CArr [2, 0], CArr [2, 0]], Inr [[1], [3]])
   \<and> lookup [CArr [2, 0], CArr [2, 0]] 0 = Some (CArr [2, 0])
   \<and> lookup [CArr [2, 0], CArr [2, 0]] (length [CArr [2, 0]]) = Some (CArr [2, 0])"
proof -
  have p0: "times_float32_eps 2 = 2 / 2 ^ 23"
    using times_float32_eps_normal[of 2] by simp
  have p1: "times_float32_eps 0 = 0"
    by (intro times_float32_eps_underflow) simp_all
  have hl: "lookup [CArr [2, 0]] 0 = Some (CArr [2, 0])" by (simp add: lookup_def)
  have s0: "gradient_step example_linear array_quotient 0 [2, 0] = ([2, 0], Inr [1])"
    by (simp add: gradient_step_def Let_def p0 example_linear_def array_quotient_def read_array_def
        arr_sub_def broadcast2_def)
  have s1: "gradient_step example_linear array_quotient (Suc 0) [2, 0] = ([2, 0], Inr [3])"
    by (simp add: gradient_step_def Let_def p1 example_linear_def array_quotient_def read_array_def
        arr_sub_def broadcast2_def)
  have hg: "gradient [CArr [2, 0]] 0 example_linear = ([CArr [2, 0], CArr [2, 0]], Inr [[1], [3]])"
    by (simp add: gradient_def lookup_def upt_rec s0 s1 np_array_def)
  from gradient_preserves_caller_array[OF hl hg] hl hg show ?thesis by simp
qed

subsection \<open>The Fisher information matrix\<close>












text \<open>
  The claim as it was made has the call return for every data of matching shape. For
  data equal to \<open>f(x)\<close> the variance of the residual is zero, the matrix handed to the
  pseudo-inverse has infinite and NaN entries, and numpy's pseudo-inverse raises
  \<open>LinAlgError\<close>.
\<close>

lemma times_float32_eps_values:
  "times_float32_eps 2 = 2 / 2 ^ 23" "times_float32_eps 1 = 1 / 2 ^ 23" "times_float32_eps 0 = 0"
  using times_float32_eps_normal[of 2] times_float32_eps_normal[of 1]
    times_float32_eps_underflow[of 0]
  by simp_all



section \<open>The copy of the orchestrator\<close>

lemma lookup_append_new: "lookup (h @ [c]) (length h) = Some c"
  by (simp add: lookup_def)

lemma lookup_append_mono: "lookup h a = Some c \<Longrightarrow> lookup (h @ e) a = Some c"
  by (auto simp: lookup_def nth_append split: if_splits)

lemma deepcopy_spectra_props:
  assumes "deepcopy_spectra h0 h memo as = Inr (h', memo', bs)"
    and "\<forall>a a'. map_of memo a = Some a' \<longrightarrow>
           length h0 \<le> a' \<and> a' < length h \<and> lookup h a' = lookup h0 a
           \<and> (\<exists>s. lookup h0 a = Some (CMrs s))"
    and "length h0 \<le> length h"
  shows "(\<exists>e. h' = h @ e)
       \<and> (\<forall>a a'. map_of memo' a = Some a' \<longrightarrow>
           length h0 \<le> a' \<and> a' < length h' \<and> lookup h' a' = lookup h0 a
           \<and> (\<exists>s. lookup h0 a = Some (CMrs s)))
       \<and> list_all2 (\<lambda>a b. length h0 \<le> b \<and> b < length h' \<and> lookup h' b = lookup h0 a
                          \<and> (\<exists>s. lookup h0 a = Some (CMrs s))) as bs"
  using assms
proof (induction "as" arbitrary: h memo h' memo' bs)
  case Nil
  then show ?case by simp
next
  case (Cons a "as")
  show ?case
  proof (cases "map_of memo a")
    case (Some a')
    with Cons.prems(1) obtain bs1 where
      rec: "deepcopy_spectra h0 h memo as = Inr (h', memo', bs1)" and bs: "bs = a' # bs1"
      by (auto split: sum.splits)
    from Cons.IH[OF rec Cons.prems(2,3)] have
      ih: "\<exists>e. h' = h @ e"
          "\<forall>a a'. map_of memo' a = Some a' \<longrightarrow>
             length h0 \<le> a' \<and> a' < length h' \<and> lookup h' a' = lookup h0 a
             \<and> (\<exists>s. lookup h0 a = Some (CMrs s))"
          "list_all2 (\<lambda>a b. length h0 \<le> b \<and> b < length h' \<and> lookup h' b = lookup h0 a
                          \<and> (\<exists>s. lookup h0 a = Some (CMrs s))) as bs1"
      by blast+
    from Cons.prems(2) Some have
      m: "length h0 \<le> a'" "a' < length h" "lookup h a' = lookup h0 a" "\<exists>s. lookup h0 a = Some (CMrs s)"
      by blast+
    from ih(1) obtain e where e: "h' = h @ e" by blast
    from m(3,4) have "lookup h' a' = lookup h0 a"
      unfolding e by (auto simp: lookup_append_mono)
    moreover from m(2) e have "a' < length h'" by simp
    ultimately show ?thesis using ih m(1,4) bs by simp
  next
    case None
    with Cons.prems(1) obtain s bs1 where
      lk: "lookup h0 a = Some (CMrs s)" and
      rec: "deepcopy_spectra h0 (h @ [CMrs s]) ((a, length h) # memo) as = Inr (h', memo', bs1)" and
      bs: "bs = length h # bs1"
      by (auto split: sum.splits option.splits cell.splits)
    have inv: "\<forall>b b'. map_of ((a, length h) # memo) b = Some b' \<longrightarrow>
           length h0 \<le> b' \<and> b' < length (h @ [CMrs s]) \<and> lookup (h @ [CMrs s]) b' = lookup h0 b
           \<and> (\<exists>s. lookup h0 b = Some (CMrs s))"
    proof (intro allI impI)
      fix b b' assume mo: "map_of ((a, length h) # memo) b = Some b'"
      show "length h0 \<le> b' \<and> b' < length (h @ [CMrs s]) \<and> lookup (h @ [CMrs s]) b' = lookup h0 b
           \<and> (\<exists>s. lookup h0 b = Some (CMrs s))"
      proof (cases "b = a")
        case True
        with mo have "b' = length h" by simp
        then show ?thesis using True lk Cons.prems(3) by (simp add: lookup_append_new)
      next
        case False
        with mo have "map_of memo b = Some b'" by simp
        with Cons.prems(2) have
          m: "length h0 \<le> b'" "b' < length h" "lookup h b' = lookup h0 b" "\<exists>s. lookup h0 b = Some (CMrs s)"
          by blast+
        from m(3,4) have "lookup (h @ [CMrs s]) b' = lookup h0 b"
          by (auto simp: lookup_append_mono)
        then show ?thesis using m by simp
      qed
    qed
    have len: "length h0 \<le> length (h @ [CMrs s])" using Cons.prems(3) by simp
    from Cons.IH[OF rec inv len] have
      ih: "\<exists>e. h' = (h @ [CMrs s]) @ e"
          "\<forall>a a'. map_of memo' a = Some a' \<longrightarrow>
             length h0 \<le> a' \<and> a' < length h' \<and> lookup h' a' = lookup h0 a
             \<and> (\<exists>s. lookup h0 a = Some (CMrs s))"
          "list_all2 (\<lambda>a b. length h0 \<le> b \<and> b < length h' \<and> lookup h' b = lookup h0 a
                          \<and> (\<exists>s. lookup h0 a = Some (CMrs s))) as bs1"
      by blast+
    from ih(1) obtain e where e: "h' = (h @ [CMrs s]) @ e" by blast
    have "lookup h' (length h) = Some (CMrs s)"
      unfolding e by (rule lookup_append_mono) (rule lookup_append_new)
    moreover have "length h < length h'" using e by simp
    moreover have "\<exists>e'. h' = h @ e'" using e by simp
    ultimately show ?thesis using ih(2,3) lk bs Cons.prems(3) by simp
  qed
qed

text \<open>What a deep copy that returns has built.\<close>

lemma deepcopy_props:
  assumes "deepcopy h dyn = Inr (h1, c)"
  shows "\<exists>d as bs e.
           lookup h dyn = Some (CDyn d) \<and> lookup h (mrs_list d) = Some (CMrsList as)
         \<and> h1 = h @ e \<and> c = length h1 - 1 \<and> length h + 2 \<le> length h1
         \<and> lookup h1 c = Some (CDyn (d\<lparr>mrs_list := length h1 - 2\<rparr>))
         \<and> lookup h1 (length h1 - 2) = Some (CMrsList bs)
         \<and> list_all2 (\<lambda>a b. length h \<le> b \<and> b < length h1 - 2 \<and> lookup h1 b = lookup h a
                          \<and> (\<exists>s. lookup h a = Some (CMrs s))) as bs"
proof -
  from assms obtain d "as" h' memo' bs where
    d: "lookup h dyn = Some (CDyn d)" and l: "lookup h (mrs_list d) = Some (CMrsList as)" and
    sp: "deepcopy_spectra h h [] as = Inr (h', memo', bs)" and
    h1: "h1 = h' @ [CMrsList bs] @ [CDyn (d\<lparr>mrs_list := length h'\<rparr>)]" and
    c: "c = Suc (length h')"
    by (auto simp: deepcopy_def Let_def split: option.splits cell.splits sum.splits)
  have inv0: "\<forall>a a'. map_of [] a = Some a' \<longrightarrow>
           length h \<le> a' \<and> a' < length h \<and> lookup h a' = lookup h a
           \<and> (\<exists>s. lookup h a = Some (CMrs s))" by simp
  note pr = deepcopy_spectra_props[OF sp inv0 order_refl]
  from pr[THEN conjunct1] obtain e where e: "h' = h @ e" ..
  from pr[THEN conjunct2, THEN conjunct2] have
    la: "list_all2 (\<lambda>a b. length h \<le> b \<and> b < length h' \<and> lookup h' b = lookup h a
                          \<and> (\<exists>s. lookup h a = Some (CMrs s))) as bs" .
  have la': "list_all2 (\<lambda>a b. length h \<le> b \<and> b < length h1 - 2 \<and> lookup h1 b = lookup h a
                          \<and> (\<exists>s. lookup h a = Some (CMrs s))) as bs"
    using la unfolding h1
    by (rule list_all2_mono) (auto simp: lookup_append_mono)
  have "lookup h1 c = Some (CDyn (d\<lparr>mrs_list := length h1 - 2\<rparr>))"
    unfolding h1 c by (simp add: lookup_def nth_append)
  moreover have "lookup h1 (length h1 - 2) = Some (CMrsList bs)"
    unfolding h1 by (simp add: lookup_def nth_append)
  moreover have "h1 = h @ (e @ [CMrsList bs] @ [CDyn (d\<lparr>mrs_list := length h'\<rparr>)])"
    unfolding h1 e by simp
  moreover have "c = length h1 - 1" "length h + 2 \<le> length h1" unfolding h1 c e by simp_all
  ultimately show ?thesis using d l la' by blast
qed


lemma dynRes_init_parts:
  assumes "dynRes_init h samples dyn init = Inr (h1, r)"
  shows "deepcopy h dyn = Inr (h1, self_dyn r) \<and> map_of init ''x'' = Some (self_init_x r)"
  using assms
  by (auto simp: dynRes_init_def split: option.splits cell.splits if_splits sum.splits)

lemma dynRes_init_data:
  assumes "dynRes_init h samples dyn init = Inr (h', r)"
  shows "rows (self_data r) = samples \<and> list_all (\<lambda>row. length row = length (columns (self_data r))) samples"
  using assms
  by (auto simp: dynRes_init_def split: option.splits cell.splits if_splits sum.splits)


section \<open>Properties of the Newton results class\<close>






















section \<open>Evaluation of the concrete fit\<close>

lemma example_lookups:
  "lookup example_heap 0 = Some (CArr [2, 1, 0])"
  "lookup example_heap 3 = Some (CMrsList [1, 2])"
  "lookup example_heap 4 = Some (CDyn example_dyn)"
  "lookup example_heap 5 = Some (CNested [[[5], [1], [0]], [[5], [3], [0]]])"
  "length example_heap = 6"
  by (simp_all add: example_heap_def lookup_def)

lemma example_lookups':
  "lookup example_heap' 0 = Some (CArr [2, 1, 0])"
  "lookup example_heap' 4 = Some (CDyn example_dyn)"
  "lookup example_heap' 5 = Some (CNested [[[5], [1], [0]], [[5], [3], [0]]])"
  "lookup example_heap' 9 = Some (CDyn (example_dyn\<lparr>mrs_list := 8\<rparr>))"
  "lookup example_heap' 8 = Some (CMrsList [6, 7])"
  "length example_heap' = 10"
  by (simp_all add: example_heap'_def example_heap_def lookup_def)

lemma example_deepcopy: "deepcopy example_heap 4 = Inr (example_heap', 9)"
  by (simp add: deepcopy_def example_heap'_def example_lookups)
     (simp add: example_heap_def lookup_def example_dyn_def)

lemma example_dynRes_init:
  "dynRes_init example_heap [[2, 1, 0]] 4 example_init = Inr (example_heap', example_res)"
  by (simp add: dynRes_init_def example_deepcopy example_lookups example_init_def example_res_def)
     (simp add: example_dyn_def)

lemma example_gradient:
  "gradient example_heap' 0 (example_fwd example_heap' 4)
     = (example_heap' @ [CArr [2, 1, 0]], Inr [[1, 1], [0, 0], [0, 0]])"
proof -
  have s0: "gradient_step (example_fwd example_heap' 4) array_quotient 0 [2, 1, 0]
              = ([2, 1, 0], Inr [1, 1])"
    by (simp add: gradient_step_def Let_def times_float32_eps_values example_fwd_def
        array_quotient_def read_array_def arr_sub_def broadcast2_def)
  have s1: "gradient_step (example_fwd example_heap' 4) array_quotient (Suc 0) [2, 1, 0]
              = ([2, 1, 0], Inr [0, 0])"
    by (simp add: gradient_step_def Let_def times_float32_eps_values example_fwd_def
        array_quotient_def read_array_def arr_sub_def broadcast2_def)
  have s2: "gradient_step (example_fwd example_heap' 4) array_quotient (Suc (Suc 0)) [2, 1, 0]
              = ([2, 1, 0], Inr [0, 0])"
    by (simp add: gradient_step_def Let_def times_float32_eps_values example_fwd_def
        array_quotient_def read_array_def arr_sub_def broadcast2_def)
  show ?thesis
    by (simp add: gradient_def example_lookups' upt_rec s0 s1 s2 np_array_def)
qed

lemma example_cov:
  "calculate_lap_cov q [] example_heap' 0 (example_fwd example_heap' 4) [3, 5]
     = (example_heap' @ [CArr [2, 1, 0]],
        q [[Fin 2, Fin 0, Fin 0], [Fin 0, Fin 0, Fin 0], [Fin 0, Fin 0, Fin 0]])"
proof -
  have f: "example_fwd example_heap' 4 [2, 1, 0] = Inr (Fresh [2, 2])"
    by (simp add: example_fwd_def)
  have r: "arr_sub [3, 5] (read_array complex_of_real [2, 1, 0] (Fresh [2, 2])) = Inr [1, 3]"
    by (simp add: arr_sub_def broadcast2_def read_array_def)
  have v: "np_var_warned [] [1, 3] = Inr (Fin 1)"
    by (simp add: np_var_warned_def with_warnings_def np_var_def Let_def)
  have d: "np_div_warned [] a (Fin 1) = Inr (Fin a)" for a
    by (simp add: np_div_warned_def with_warnings_def np_div_def)
  show ?thesis
    by (simp add: calculate_lap_cov_def example_lookups' f r v example_gradient upt_rec d)
qed

lemma example_std_dyn_block:
  "std_dyn_block [] (diagonal example_noisy_cov) = ([], Inr [Fin 2, NaN, Fin 0])"
proof -
  have "diagonal example_noisy_cov = [Fin 4, Fin (- 1), Fin 0]"
    by (simp add: diagonal_def example_noisy_cov_def upt_rec)
  moreover have "sqrt 4 = 2" using real_sqrt_abs[of 2] by simp
  ultimately show ?thesis
    by (simp add: std_dyn_block_def np_sqrt_arr_def negative_def np_sqrt_def Let_def warn_def)
qed

lemma example_corr:
  "corr_dyn_of [] example_noisy_cov [Fin 2, NaN, Fin 0]
     = Inr [[Fin 1, NaN, NaN], [NaN, NaN, NaN], [NaN, NaN, NaN]]"
proof -
  have o: "np_outer [] [Fin 2, NaN, Fin 0]
             = Inr [[Fin 4, NaN, Fin 0], [NaN, NaN, NaN], [Fin 0, NaN, Fin 0]]"
    by (simp add: np_outer_def with_warnings_def warn_def np_mul_def is_inf_def is_zero_def
        the_real_def mul_invalid_def)
  have p: "broadcast_result (\<lambda>r1 r2. broadcast2 Pair r1 r2) example_noisy_cov
             [[Fin 4, NaN, Fin 0], [NaN, NaN, NaN], [Fin 0, NaN, Fin 0]]
           = Inr [[(Fin 4, Fin 4), (Fin 1, NaN), (Fin 0, Fin 0)],
                  [(Fin 1, NaN), (Fin (- 1), NaN), (Fin 0, NaN)],
                  [(Fin 0, Fin 0), (Fin 0, NaN), (Fin 0, Fin 0)]]"
    by (simp add: broadcast_result_def broadcast2_def example_noisy_cov_def)
  show ?thesis
    by (simp add: corr_dyn_of_def o np_divide_def p with_warnings_def warn_def np_truediv_def
        div_by_zero_def div_invalid_def is_inf_def is_zero_def is_finite_def the_real_def)
qed

lemma example_free_to_mapped:
  "free_to_mapped example_methods v y
     = Inr [[Fresh [y ! 0], Fresh [y ! 1], Fresh [0]],
            [Fresh [y ! 0], Fresh [y ! 1 + y ! 2], Fresh [0]]]"
  by (simp add: example_methods_def)

lemma example_gradient_nested:
  "gradient_nested (example_heap' @ [CArr [2, 1, 0]]) 0 (free_to_mapped example_methods example_vm)
     = (example_heap' @ [CArr [2, 1, 0], CArr [2, 1, 0]],
        Inr [[[[1], [0], [0]], [[1], [0], [0]]],
             [[[0], [1], [0]], [[0], [1], [0]]],
             [[[0], [0], [0]], [[0], [1], [0]]]])"
proof -
  have l: "lookup (example_heap' @ [CArr [2, 1, 0]]) 0 = Some (CArr [2, 1, 0])"
    using example_lookups'(1) by (rule lookup_append_mono)
  have s0: "gradient_step (free_to_mapped example_methods example_vm) nested_quotient 0 [2, 1, 0]
              = ([2, 1, 0], Inr [[[1], [0], [0]], [[1], [0], [0]]])"
    by (simp add: gradient_step_def Let_def times_float32_eps_values example_free_to_mapped
        nested_quotient_def broadcast_result_def broadcast2_def read_array_def)
  have s1: "gradient_step (free_to_mapped example_methods example_vm) nested_quotient (Suc 0) [2, 1, 0]
              = ([2, 1, 0], Inr [[[0], [1], [0]], [[0], [1], [0]]])"
    by (simp add: gradient_step_def Let_def times_float32_eps_values example_free_to_mapped
        nested_quotient_def broadcast_result_def broadcast2_def read_array_def)
  have s2: "gradient_step (free_to_mapped example_methods example_vm) nested_quotient (Suc (Suc 0))
              [2, 1, 0]
              = ([2, 1, 0], Inr [[[0], [0], [0]], [[0], [1], [0]]])"
    by (simp add: gradient_step_def Let_def times_float32_eps_values example_free_to_mapped
        nested_quotient_def broadcast_result_def broadcast2_def read_array_def)
  show ?thesis
    by (simp add: gradient_nested_def l upt_rec s0 s1 s2 np_array_nested_def)
qed

lemma np_arith_fin:
  "np_mul (Fin a) (Fin b) = Fin (a * b)" "np_add (Fin a) (Fin b) = Fin (a + b)"
  "mul_invalid (Fin a) (Fin b) = False" "add_invalid (Fin a) (Fin b) = False"
  by (simp_all add: np_mul_def np_add_def mul_invalid_def add_invalid_def is_inf_def the_real_def)

lemma dot_flagged_fin3:
  "dot_flagged [Fin a1, Fin a2, Fin a3] [Fin b1, Fin b2, Fin b3]
     = (Fin (a1 * b1 + a2 * b2 + a3 * b3), False)"
  by (simp add: dot_flagged_def np_arith_fin)

lemma example_matmul_cov:
  "np_matmul [] 3 [[Fin a1, Fin a2, Fin a3], [Fin b1, Fin b2, Fin b3]] example_noisy_cov
     = Inr [[Fin (4 * a1 + a2), Fin (a1 - a2), Fin 0], [Fin (4 * b1 + b2), Fin (b1 - b2), Fin 0]]"
  by (simp add: np_matmul_def example_noisy_cov_def ncols_def upt_rec dot_flagged_fin3
      with_warnings_def Let_def)

lemma example_matmul_grad:
  "np_matmul [] 3 [[Fin a1, Fin a2, Fin a3], [Fin b1, Fin b2, Fin b3]]
       [[Fin c1, Fin d1], [Fin c2, Fin d2], [Fin c3, Fin d3]]
     = Inr [[Fin (a1 * c1 + a2 * c2 + a3 * c3), Fin (a1 * d1 + a2 * d2 + a3 * d3)],
            [Fin (b1 * c1 + b2 * c2 + b3 * c3), Fin (b1 * d1 + b2 * d2 + b3 * d3)]]"
  by (simp add: np_matmul_def ncols_def upt_rec dot_flagged_fin3 with_warnings_def Let_def)

lemma example_ncols: "ncols example_noisy_cov = 3"
  by (simp add: ncols_def example_noisy_cov_def)

lemma example_std_column:
  "std_column [] [[[[1], [0], [0]], [[1], [0], [0]]],
                  [[[0], [1], [0]], [[0], [1], [0]]],
                  [[[0], [0], [0]], [[0], [1], [0]]]] example_noisy_cov 3 2 0 0
     = Inr [Fin 2, Fin 2]"
  "std_column [] [[[[1], [0], [0]], [[1], [0], [0]]],
                  [[[0], [1], [0]], [[0], [1], [0]]],
                  [[[0], [0], [0]], [[0], [1], [0]]]] example_noisy_cov 3 2 (Suc 0) 0
     = Inr [NaN, NaN]"
  "std_column [] [[[[1], [0], [0]], [[1], [0], [0]]],
                  [[[0], [1], [0]], [[0], [1], [0]]],
                  [[[0], [0], [0]], [[0], [1], [0]]]] example_noisy_cov 3 2 (Suc (Suc 0)) 0
     = Inr [Fin 0, Fin 0]"
proof -
  have sq: "sqrt 4 = 2" using real_sqrt_abs[of 2] by simp
  show "std_column [] [[[[1], [0], [0]], [[1], [0], [0]]],
                  [[[0], [1], [0]], [[0], [1], [0]]],
                  [[[0], [0], [0]], [[0], [1], [0]]]] example_noisy_cov 3 2 0 0
     = Inr [Fin 2, Fin 2]"
    by (simp add: std_column_def grad_entry_def upt_rec Let_def example_matmul_cov example_ncols
        example_matmul_grad diagonal_def np_sqrt_arr_def negative_def np_sqrt_def warn_def sq)
  show "std_column [] [[[[1], [0], [0]], [[1], [0], [0]]],
                  [[[0], [1], [0]], [[0], [1], [0]]],
                  [[[0], [0], [0]], [[0], [1], [0]]]] example_noisy_cov 3 2 (Suc 0) 0
     = Inr [NaN, NaN]"
    by (simp add: std_column_def grad_entry_def upt_rec Let_def example_matmul_cov example_ncols
        example_matmul_grad diagonal_def np_sqrt_arr_def negative_def np_sqrt_def warn_def)
  show "std_column [] [[[[1], [0], [0]], [[1], [0], [0]]],
                  [[[0], [1], [0]], [[0], [1], [0]]],
                  [[[0], [0], [0]], [[0], [1], [0]]]] example_noisy_cov 3 2 (Suc (Suc 0)) 0
     = Inr [Fin 0, Fin 0]"
    by (simp add: std_column_def grad_entry_def upt_rec Let_def example_matmul_cov example_ncols
        example_matmul_grad diagonal_def np_sqrt_arr_def negative_def np_sqrt_def warn_def)
qed

lemma example_newton_mapped:
  "newton_mapped example_methods [] (example_heap' @ [CArr [2, 1, 0]]) 0 example_vm example_noisy_cov
     = Inr (example_heap' @ [CArr [2, 1, 0], CArr [2, 1, 0]],
            [(''conc'', 1, [[2], [2]]), (''gamma'', 1, [[1], [1]]), (''eps'', 1, [[0], [0]])],
            [(''conc'', [[Fin 2], [Fin 2]]), (''gamma'', [[NaN], [NaN]]),
             (''eps'', [[Fin 0], [Fin 0]])])"
proof -
  have l: "lookup (example_heap' @ [CArr [2, 1, 0]]) 0 = Some (CArr [2, 1, 0])"
    using example_lookups'(1) by (rule lookup_append_mono)
  have d: "mapped_to_dict example_methods example_vm
             (mapped_values [2, 1, 0] [[Fresh [2], Fresh [1], Fresh [0]],
                                       [Fresh [2], Fresh [1], Fresh [0]]])
           = Inr [(''conc'', 1, [[2], [2]]), (''gamma'', 1, [[1], [1]]), (''eps'', 1, [[0], [0]])]"
    by (simp add: example_methods_def example_vm_def mapped_values_def read_array_def
        enumerate_eq_zip upt_rec)
  have n: "mapped_names example_vm = [''conc'', ''gamma'', ''eps'']" "ntimes example_vm = 2"
    by (simp_all add: example_vm_def)
  have g: "group_std [] [[[[1], [0], [0]], [[1], [0], [0]]],
                  [[[0], [1], [0]], [[0], [1], [0]]],
                  [[[0], [0], [0]], [[0], [1], [0]]]] example_noisy_cov (Suc (Suc (Suc 0))) 2
             [(''conc'', Suc 0, [[2], [2]]), (''gamma'', Suc 0, [[1], [1]]), (''eps'', Suc 0, [[0], [0]])]
             (0, ''conc'') = Inr (''conc'', [[Fin 2], [Fin 2]])"
     "group_std [] [[[[1], [0], [0]], [[1], [0], [0]]],
                  [[[0], [1], [0]], [[0], [1], [0]]],
                  [[[0], [0], [0]], [[0], [1], [0]]]] example_noisy_cov (Suc (Suc (Suc 0))) 2
             [(''conc'', Suc 0, [[2], [2]]), (''gamma'', Suc 0, [[1], [1]]), (''eps'', Suc 0, [[0], [0]])]
             (Suc 0, ''gamma'') = Inr (''gamma'', [[NaN], [NaN]])"
     "group_std [] [[[[1], [0], [0]], [[1], [0], [0]]],
                  [[[0], [1], [0]], [[0], [1], [0]]],
                  [[[0], [0], [0]], [[0], [1], [0]]]] example_noisy_cov (Suc (Suc (Suc 0))) 2
             [(''conc'', Suc 0, [[2], [2]]), (''gamma'', Suc 0, [[1], [1]]), (''eps'', Suc 0, [[0], [0]])]
             (Suc (Suc 0), ''eps'') = Inr (''eps'', [[Fin 0], [Fin 0]])"
    by (simp_all add: group_std_def example_std_column[unfolded numeral_3_eq_3] upt_rec)
  show ?thesis
    by (simp add: newton_mapped_def l example_free_to_mapped d example_gradient_nested n
        enumerate_eq_zip upt_rec g)
qed

lemma example_newton_init:
  "dynRes_newton_init example_noisy_pinv example_fwd example_methods [] example_heap 0 4 example_init
     = Inr (example_heap' @ [CArr [2, 1, 0], CArr [2, 1, 0]], example_newton_res)"
proof -
  have d: "concat (data example_dyn) = [3, 5]" "vm example_dyn = example_vm"
    by (simp_all add: example_dyn_def)
  show ?thesis
    by (simp add: dynRes_newton_init_def example_dynRes_init example_lookups example_lookups'
        d example_cov example_noisy_pinv_def example_std_dyn_block example_corr
        example_newton_mapped example_res_def example_newton_res_def)
qed


lemma newton_init_parts:
  assumes "dynRes_newton_init pinv full_fwd M filters h samples dyn init = Inr (h', r)"
  shows "\<exists>xs h1 base.
           lookup h samples = Some (CArr xs)
         \<and> dynRes_init h [xs] dyn init = Inr (h1, base)
         \<and> self_data r = self_data base \<and> self_dyn r = self_dyn base
         \<and> self_init_x r = self_init_x base"
  using assms
  by (auto simp: dynRes_newton_init_def Let_def
           split: option.splits cell.splits sum.splits prod.splits)

lemma sum_list_column:
  "sum_list (map (\<lambda>row. row ! j) rs) = (\<Sum>i<length rs. rs ! i ! (j::nat) :: real)"
proof -
  have "sum_list (map (\<lambda>row. row ! j) rs) = (\<Sum>i = 0..<length (map (\<lambda>row. row ! j) rs). map (\<lambda>row. row ! j) rs ! i)"
    by (rule sum_list_sum_nth)
  also have "\<dots> = (\<Sum>i<length rs. rs ! i ! j)"
    by (simp add: atLeast0LessThan)
  finally show ?thesis .
qed

text \<open>
  Claim C6. The point estimate \<open>x\<close> of a results object is the column-wise mean of
  its sample matrix, and for a Newton result, built from one vector of free
  parameters, it is that vector.
\<close>

theorem point_estimate_is_column_mean:
  fixes self :: "'a dynRes_scheme"
  assumes "lookup h samples = Some (CArr xs)"
    and "dynRes_newton_init pinv full_fwd M filters h samples dyn init = Inr (h', r)"
  shows "length (dynRes_x self) = length (columns (data_frame self))
       \<and> (\<forall>j < length (columns (data_frame self)).
            dynRes_x self ! j =
              (if rows (data_frame self) = [] then NaN
               else Fin ((\<Sum>i<length (rows (data_frame self)). rows (data_frame self) ! i ! j)
                          / real (length (rows (data_frame self))))))
       \<and> rows (data_frame r) = [xs]
       \<and> dynRes_x r = map Fin xs"
proof -
  have a: "length (dynRes_x self) = length (columns (data_frame self))"
    by (simp add: dynRes_x_def)
  have b: "\<forall>j < length (columns (data_frame self)).
            dynRes_x self ! j =
              (if rows (data_frame self) = [] then NaN
               else Fin ((\<Sum>i<length (rows (data_frame self)). rows (data_frame self) ! i ! j)
                          / real (length (rows (data_frame self)))))"
    by (simp add: dynRes_x_def np_mean_def sum_list_column)
  from newton_init_parts[OF assms(2)] assms(1) obtain h1 base where
    bi: "dynRes_init h [xs] dyn init = Inr (h1, base)" and sd: "self_data r = self_data base"
    by auto
  from dynRes_init_data[OF bi] sd have
    rw: "rows (self_data r) = [xs]" and len: "length (columns (self_data r)) = length xs"
    by simp_all
  have "dynRes_x r = map (\<lambda>j. Fin (xs ! j)) [0..<length xs]"
    by (simp add: dynRes_x_def data_frame_def rw len np_mean_def)
  also have "\<dots> = map Fin (map (\<lambda>j. xs ! j) [0..<length xs])" by simp
  also have "\<dots> = map Fin xs" by (simp only: map_nth)
  finally have c: "dynRes_x r = map Fin xs" .
  from a b c rw show ?thesis by (simp add: data_frame_def)
qed


theorem point_estimate_is_column_mean_witness:
  "lookup example_heap 0 = Some (CArr [2, 1, 0])
   \<and> dynRes_newton_init example_noisy_pinv example_fwd example_methods [] example_heap 0 4 example_init
       = Inr (example_heap' @ [CArr [2, 1, 0], CArr [2, 1, 0]], example_newton_res)
   \<and> dynRes_x example_newton_res = [Fin 2, Fin 1, Fin 0]
   \<and> length (dynRes_x example_mcmc_res) = 3
   \<and> dynRes_x example_mcmc_res ! 1 = Fin (3 / 2)"
proof -
  note t = point_estimate_is_column_mean[OF example_lookups(1) example_newton_init,
      where self = example_mcmc_res]
  have c: "columns (data_frame example_mcmc_res) = [''conc_0'', ''gamma_c_amp'', ''gamma_c_slope'']"
    and r: "rows (data_frame example_mcmc_res) = [[2, 1, 0], [4, 2, 1]]"
    by (simp_all add: data_frame_def example_mcmc_res_def)
  from t have "dynRes_x example_newton_res = map Fin [2, 1, 0]" by blast
  moreover from t have "length (dynRes_x example_mcmc_res) = 3" by (simp add: c)
  moreover from t have "dynRes_x example_mcmc_res ! 1 = Fin (3 / 2)"
    by (simp add: c r lessThan_Suc)
  ultimately show ?thesis
    using example_lookups(1) example_newton_init by simp
qed


lemma str_nat_digits: "str_nat 0 = ''0''" "str_nat 1 = ''1''"
  by (simp_all add: str_nat.simps digit_char_def)

lemma example_read_dyn: "read_dyn example_heap' example_res = Inr (example_dyn\<lparr>mrs_list := 8\<rparr>)"
  by (simp add: read_dyn_def example_res_def example_heap'_def example_heap_def lookup_def)

lemma example_x: "dynRes_x example_res = [Fin 2, Fin 1, Fin 0]"
  by (simp add: dynRes_x_def data_frame_def example_res_def np_mean_def upt_rec)

lemma example_collected:
  "collected_results example_res None example_state = (Inr example_results, example_state)"
  apply (simp add: collected_results_def example_read_dyn example_x example_state_def example_results_def)
  apply (simp add: example_dyn_def example_vm_def enumerate_eq_zip upt_rec group_step_def group_header_def
       py_slice_def py_in_def beh_params_def py_seq_def np_array_def str_nat_digits Let_def)
  done

text \<open>
  Claim C7. Two calls of \<open>collected_results\<close> in succession, with no output file,
  return the same value, and neither call changes the state: the store, with the
  objects of the result in it, and the files are after each call what they were
  before.
\<close>

theorem collected_results_pure_read:
  assumes "collected_results self None s = (res1, s1)"
    and "collected_results self None s1 = (res2, s2)"
  shows "res2 = res1 \<and> s1 = s \<and> s2 = s"
proof -
  have "snd (collected_results self None t) = t" for t
    by (simp add: collected_results_def Let_def split: sum.splits prod.splits)
  from this[of s] assms(1) have s1: "s1 = s" by simp
  with assms show ?thesis by simp
qed

lemma group_step_unknown:
  assumes "map_of (Parameters vm_obj) param = Some beh"
    and "beh \<noteq> BehStr ''fixed''" and "beh \<noteq> BehStr ''variable''"
    and "\<not> py_in ''dynamic'' beh"
    and "index < length (mapped_sizes vm_obj)"
  shows "group_step vm_obj metab_names values (res, counter) (index, param)
           = Inr (AList.update param [] res, counter)"
  using assms by (simp add: group_step_def Let_def)

lemma group_step_updates:
  assumes "group_step vm_obj metab_names values (res, counter) (index, q) = Inr (res', counter')"
  shows "\<exists>tbl. res' = AList.update q tbl res"
  using assms
  by (auto simp: group_step_def Let_def split: if_splits option.splits sum.splits prod.splits)

lemma map_of_update_other: "q \<noteq> p \<Longrightarrow> map_of (AList.update q v al) p = map_of al p"
  by (simp add: update_conv')

lemma groups_loop_keeps_empty:
  assumes "groups_loop vm_obj metab_names values ips rc = Inr rc'"
    and "map_of (Parameters vm_obj) param = Some beh"
    and "beh \<noteq> BehStr ''fixed''" and "beh \<noteq> BehStr ''variable''"
    and "\<not> py_in ''dynamic'' beh"
    and "param \<in> snd ` set ips \<or> map_of (fst rc) param = Some []"
  shows "map_of (fst rc') param = Some []"
  using assms(1,6)
proof (induction ips arbitrary: rc)
  case Nil
  then show ?case by simp
next
  case (Cons ip ips)
  obtain res counter where rc: "rc = (res, counter)" by (cases rc)
  obtain index q where ip: "ip = (index, q)" by (cases ip)
  from Cons.prems(1) obtain rc1 where
    st: "group_step vm_obj metab_names values (res, counter) (index, q) = Inr rc1" and
    lp: "groups_loop vm_obj metab_names values ips rc1 = Inr rc'"
    by (auto simp: rc ip split: sum.splits)
  obtain res1 counter1 where rc1: "rc1 = (res1, counter1)" by (cases rc1)
  from st have st': "group_step vm_obj metab_names values (res, counter) (index, q) = Inr (res1, counter1)"
    by (simp add: rc1)
  from group_step_updates[OF st'] obtain tbl where
    upd: "res1 = AList.update q tbl res" by blast
  have "param \<in> snd ` set ips \<or> map_of (fst rc1) param = Some []"
  proof (cases "q = param")
    case True
    have "index < length (mapped_sizes vm_obj)"
      using st by (auto simp: group_step_def Let_def split: if_splits)
    from group_step_unknown[OF assms(2-5) this] st True
    have "rc1 = (AList.update param [] res, counter)" by simp
    then show ?thesis by (simp add: update_conv')
  next
    case False
    with Cons.prems(2) have "param \<in> snd ` set ips \<or> map_of res param = Some []"
      by (auto simp: rc ip)
    then show ?thesis using False by (auto simp: rc1 upd map_of_update_other)
  qed
  from Cons.IH[OF lp this] show ?case .
qed

text \<open>
  Claim C8. For a parameter group whose behaviour is neither \<open>fixed\<close> nor
  \<open>variable\<close> and for which the test \<open>'dynamic' in beh\<close> fails, the pass of the loop
  raises nothing, leaves the entry of the group empty and leaves the counter into the
  values where it was; and the entry of the group is empty in the dictionary that
  \<open>collected_results\<close> returns.
\<close>

theorem unknown_behaviour_is_skipped:
  assumes "map_of (Parameters vm_obj) param = Some beh"
    and "beh \<noteq> BehStr ''fixed''" and "beh \<noteq> BehStr ''variable''"
    and "\<not> py_in ''dynamic'' beh"
    and "index < length (mapped_sizes vm_obj)"
  shows "group_step vm_obj metab_names values (res, counter) (index, param)
           = Inr (AList.update param [] res, counter)
       \<and> (\<forall>self to_file s d R s'.
             read_dyn (store s) self = Inr d \<and> vm d = vm_obj
             \<and> param \<in> set (mapped_names vm_obj)
             \<and> collected_results (self :: dynRes) to_file s = (Inr R, s')
             \<longrightarrow> map_of R param = Some [])"
proof -
  have "map_of R param = Some []"
    if rd: "read_dyn (store s) self = Inr d" and v: "vm d = vm_obj"
      and mem: "param \<in> set (mapped_names vm_obj)"
      and cr: "collected_results (self :: dynRes) to_file s = (Inr R, s')"
    for self to_file s d R s'
  proof -
    from cr rd v obtain counter' where
      lp: "groups_loop vm_obj (metabolite_names d) (dynRes_x self)
             (enumerate 0 (mapped_names vm_obj)) ([], 0) = Inr (R, counter')"
      by (auto simp: collected_results_def Let_def split: sum.splits prod.splits option.splits)
    have "snd ` set (enumerate 0 (mapped_names vm_obj)) = set (map snd (enumerate 0 (mapped_names vm_obj)))"
      by (simp only: set_map)
    with mem have "param \<in> snd ` set (enumerate 0 (mapped_names vm_obj))"
      by (simp only: map_snd_enumerate)
    with groups_loop_keeps_empty[OF lp assms(1-4)] show ?thesis by simp
  qed
  with group_step_unknown[OF assms] show ?thesis by blast
qed


theorem collected_results_pure_read_witness:
  "collected_results example_res None example_state = (Inr example_results, example_state)
   \<and> (Inr example_results :: error + results) = Inr example_results
   \<and> example_state = example_state"
  using collected_results_pure_read[OF example_collected example_collected] example_collected
  by simp

theorem unknown_behaviour_is_skipped_witness:
  "map_of (Parameters example_vm) ''eps'' = Some (BehStr ''linear'')
   \<and> BehStr ''linear'' \<noteq> BehStr ''fixed''
   \<and> BehStr ''linear'' \<noteq> BehStr ''variable''
   \<and> \<not> py_in ''dynamic'' (BehStr ''linear'')
   \<and> 2 < length (mapped_sizes example_vm)
   \<and> group_step example_vm [''NAA''] [Fin 2, Fin 1, Fin 0] ([(''conc'', [])], 1) (2, ''eps'')
       = Inr ([(''conc'', []), (''eps'', [])], 1)
   \<and> read_dyn (store example_state) example_res = Inr (example_dyn\<lparr>mrs_list := 8\<rparr>)
   \<and> collected_results example_res None example_state = (Inr example_results, example_state)
   \<and> map_of example_results ''eps'' = Some []"
proof -
  have h1: "map_of (Parameters example_vm) ''eps'' = Some (BehStr ''linear'')"
    by (simp add: example_vm_def)
  have h2: "BehStr ''linear'' \<noteq> BehStr ''fixed''" and h3: "BehStr ''linear'' \<noteq> BehStr ''variable''"
    by simp_all
  have h4: "\<not> py_in ''dynamic'' (BehStr ''linear'')"
    by (simp add: py_in_def)
  have h5: "2 < length (mapped_sizes example_vm)"
    by (simp add: example_vm_def)
  note t = unknown_behaviour_is_skipped[OF h1 h2 h3 h4 h5]
  have rd: "read_dyn (store example_state) example_res = Inr (example_dyn\<lparr>mrs_list := 8\<rparr>)"
    by (simp add: example_state_def example_read_dyn)
  have v: "vm (example_dyn\<lparr>mrs_list := 8\<rparr>) = example_vm" by (simp add: example_dyn_def)
  have mem: "''eps'' \<in> set (mapped_names example_vm)" by (simp add: example_vm_def)
  from t have a: "group_step example_vm [''NAA''] [Fin 2, Fin 1, Fin 0] ([(''conc'', [])], 1) (2, ''eps'')
       = Inr (AList.update ''eps'' [] [(''conc'', [])], 1)" by blast
  from t rd v mem example_collected have b: "map_of example_results ''eps'' = Some []" by blast
  from a b h1 h2 h3 h4 h5 rd example_collected show ?thesis by simp
qed

section \<open>Isolation of the results object\<close>

lemma result_view_unchanged:
  assumes init: "dynRes_init h samples dyn init = Inr (h1, r)"
    and typed: "lookup h (self_init_x r) = Some (CNested X)"
    and mut: "\<forall>a < length h1. a \<notin> dyn_objects h dyn \<longrightarrow> lookup h2 a = lookup h1 a"
  shows "read_dyn h2 r = read_dyn h1 r
       \<and> read_init_x h2 r = read_init_x h1 r
       \<and> fitting_context h2 r = fitting_context h1 r
       \<and> (\<exists>d as. lookup h dyn = Some (CDyn d) \<and> lookup h (mrs_list d) = Some (CMrsList as)
            \<and> fitting_context h1 r = Inr (d\<lparr>mrs_list := length h1 - 2\<rparr>, map (lookup h) as))"
proof -
  from dynRes_init_parts[OF init] have dc: "deepcopy h dyn = Inr (h1, self_dyn r)" by simp
  from deepcopy_props[OF dc] obtain d "as" bs e where
    d: "lookup h dyn = Some (CDyn d)" and l: "lookup h (mrs_list d) = Some (CMrsList as)" and
    h1: "h1 = h @ e" and c: "self_dyn r = length h1 - 1" and len: "length h + 2 \<le> length h1" and
    lc: "lookup h1 (self_dyn r) = Some (CDyn (d\<lparr>mrs_list := length h1 - 2\<rparr>))" and
    ll: "lookup h1 (length h1 - 2) = Some (CMrsList bs)" and
    la: "list_all2 (\<lambda>a b. length h \<le> b \<and> b < length h1 - 2 \<and> lookup h1 b = lookup h a
                          \<and> (\<exists>s. lookup h a = Some (CMrs s))) as bs"
    by blast
  have objs: "dyn_objects h dyn = {dyn, mrs_list d} \<union> set as"
    by (simp add: dyn_objects_def d l)
  have spectra: "\<exists>s. lookup h a = Some (CMrs s)" if "a \<in> set as" for a
  proof -
    from that obtain i where "i < length as" "as ! i = a" by (auto simp: in_set_conv_nth)
    with la show ?thesis by (auto simp: list_all2_conv_all_nth)
  qed
  have old: "a < length h" if "a \<in> dyn_objects h dyn" for a
    using that d l spectra unfolding objs by (auto dest: lookup_SomeD)
  have fresh: "lookup h2 b = lookup h1 b" if "length h \<le> b" "b < length h1" for b
  proof -
    from that(1) old have "b \<notin> dyn_objects h dyn" by fastforce
    with mut that(2) show ?thesis by simp
  qed
  have ix_old: "self_init_x r < length h1" using typed h1 by (auto dest: lookup_SomeD)
  have "self_init_x r \<notin> dyn_objects h dyn"
  proof
    assume "self_init_x r \<in> dyn_objects h dyn"
    then consider "self_init_x r = dyn" | "self_init_x r = mrs_list d" | "self_init_x r \<in> set as"
      unfolding objs by blast
    then show False
    proof cases
      case 1 with typed d show False by simp
    next
      case 2 with typed l show False by simp
    next
      case 3 from spectra[OF 3] typed show False by auto
    qed
  qed
  with mut ix_old have ix: "lookup h2 (self_init_x r) = lookup h1 (self_init_x r)" by simp
  have cc: "lookup h2 (self_dyn r) = lookup h1 (self_dyn r)"
    using fresh[of "self_dyn r"] c len by simp
  have l2: "lookup h2 (length h1 - 2) = lookup h1 (length h1 - 2)"
    using fresh[of "length h1 - 2"] len by simp
  have bsf: "lookup h2 b = lookup h1 b" if "b \<in> set bs" for b
  proof -
    from that obtain i where "i < length bs" "bs ! i = b" by (auto simp: in_set_conv_nth)
    with la have "length h \<le> b" "b < length h1 - 2" by (auto simp: list_all2_conv_all_nth)
    then show ?thesis using fresh[of b] by simp
  qed
  have mbs: "map (lookup h2) bs = map (lookup h1) bs" using bsf by simp
  have copy: "map (lookup h1) bs = map (lookup h) as"
    using la by (auto simp: list_all2_conv_all_nth intro: nth_equalityI)
  have rd: "read_dyn h2 r = read_dyn h1 r" by (simp add: read_dyn_def cc)
  have ri: "read_init_x h2 r = read_init_x h1 r" by (simp add: read_init_x_def ix)
  have fc1: "fitting_context h1 r = Inr (d\<lparr>mrs_list := length h1 - 2\<rparr>, map (lookup h) as)"
    by (simp add: fitting_context_def read_dyn_def lc ll copy)
  have fc2: "fitting_context h2 r = Inr (d\<lparr>mrs_list := length h1 - 2\<rparr>, map (lookup h) as)"
    by (simp add: fitting_context_def read_dyn_def cc lc l2 ll mbs copy)
  from rd ri fc1 fc2 d l show ?thesis by simp
qed

text \<open>
  Claim C2. Once a results object is built, a change of the objects of the original
  orchestrator (the orchestrator, its spectrum list, the spectra) changes no value
  that the object returns afterwards: the context it reads is the deep copy, which
  holds what the original held when the object was built. The frame of the samples
  and the point estimate do not read the store. The initial mapped parameters are a
  nested array, hence none of the orchestrator's objects.
\<close>

theorem result_isolated_from_orchestrator:
  assumes "dynRes_init h samples dyn init = Inr (h1, r)"
    and "lookup h (self_init_x r) = Some (CNested X)"
    and "\<forall>a < length h1. a \<notin> dyn_objects h dyn \<longrightarrow> lookup h2 a = lookup h1 a"
  shows "(\<exists>d as. lookup h dyn = Some (CDyn d) \<and> lookup h (mrs_list d) = Some (CMrsList as)
            \<and> fitting_context h1 r = Inr (d\<lparr>mrs_list := length h1 - 2\<rparr>, map (lookup h) as))
       \<and> fitting_context h2 r = fitting_context h1 r
       \<and> mapped_parameters M h2 r = mapped_parameters M h1 r
       \<and> mapped_parameters_init h2 r = mapped_parameters_init h1 r
       \<and> free_parameters_init M h2 r = free_parameters_init M h1 r
       \<and> mapped_parameters_fitted_init M h2 r = mapped_parameters_fitted_init M h1 r
       \<and> dynRes_mapped_names h2 r = dynRes_mapped_names h1 r
       \<and> dynRes_free_names h2 r = dynRes_free_names h1 r
       \<and> fst (collected_results r to_file \<lparr>store = h2, files = fs\<rparr>)
           = fst (collected_results r to_file \<lparr>store = h1, files = fs\<rparr>)"
proof -
  note v = result_view_unchanged[OF assms]
  from v have rd: "read_dyn h2 r = read_dyn h1 r" and ri: "read_init_x h2 r = read_init_x h1 r"
    and fc: "fitting_context h2 r = fitting_context h1 r"
    by blast+
  have fpi: "free_parameters_init M h2 r = free_parameters_init M h1 r"
    unfolding free_parameters_init_def rd ri ..
  have mp: "mapped_parameters M h2 r = mapped_parameters M h1 r"
    unfolding mapped_parameters_def rd ..
  have mpi: "mapped_parameters_init h2 r = mapped_parameters_init h1 r"
    unfolding mapped_parameters_init_def ri ..
  have mpf: "mapped_parameters_fitted_init M h2 r = mapped_parameters_fitted_init M h1 r"
    unfolding mapped_parameters_fitted_init_def rd fpi ..
  have mn: "dynRes_mapped_names h2 r = dynRes_mapped_names h1 r"
    unfolding dynRes_mapped_names_def rd ..
  have fn: "dynRes_free_names h2 r = dynRes_free_names h1 r"
    unfolding dynRes_free_names_def rd ..
  have cr: "fst (collected_results r to_file \<lparr>store = h2, files = fs\<rparr>)
           = fst (collected_results r to_file \<lparr>store = h1, files = fs\<rparr>)"
    by (simp add: collected_results_def rd Let_def split: sum.splits prod.splits option.splits)
  from v fc fpi mp mpi mpf mn fn cr show ?thesis by blast
qed


lemma example_dyn_objects: "dyn_objects example_heap 4 = {4, 3, 1, 2}"
proof -
  have "mrs_list example_dyn = 3" by (simp add: example_dyn_def)
  then show ?thesis by (auto simp: dyn_objects_def example_lookups)
qed

lemma example_mutation:
  "\<forall>a < length example_heap'. a \<notin> dyn_objects example_heap 4
     \<longrightarrow> lookup example_heap_mutated a = lookup example_heap' a"
  by (simp add: example_dyn_objects example_heap_mutated_def lookup_def nth_list_update)

theorem result_isolated_from_orchestrator_witness:
  "dynRes_init example_heap [[2, 1, 0]] 4 example_init = Inr (example_heap', example_res)
   \<and> lookup example_heap (self_init_x example_res) = Some (CNested [[[5], [1], [0]], [[5], [3], [0]]])
   \<and> dyn_objects example_heap 4 = {4, 3, 1, 2}
   \<and> map (lookup example_heap_mutated) [0, 5, 6, 7, 8, 9] = map (lookup example_heap') [0, 5, 6, 7, 8, 9]
   \<and> lookup example_heap_mutated 4 \<noteq> lookup example_heap' 4
   \<and> fitting_context example_heap_mutated example_res = fitting_context example_heap' example_res
   \<and> fst (collected_results example_res None \<lparr>store = example_heap_mutated, files = []\<rparr>)
       = Inr example_results"
proof -
  have ix: "lookup example_heap (self_init_x example_res) = Some (CNested [[[5], [1], [0]], [[5], [3], [0]]])"
    by (simp add: example_res_def example_lookups)
  note t = result_isolated_from_orchestrator[OF example_dynRes_init ix example_mutation,
      where M = example_methods and to_file = None and fs = "[]"]
  have same: "map (lookup example_heap_mutated) [0, 5, 6, 7, 8, 9]
                = map (lookup example_heap') [0, 5, 6, 7, 8, 9]"
    by (simp add: example_heap_mutated_def lookup_def example_heap'_def example_heap_def)
  have changed: "lookup example_heap_mutated 4 \<noteq> lookup example_heap' 4"
    by (simp add: example_heap_mutated_def lookup_def example_heap'_def example_heap_def example_dyn_def)
  from t have fc: "fitting_context example_heap_mutated example_res = fitting_context example_heap' example_res"
    by blast
  from t have "fst (collected_results example_res None \<lparr>store = example_heap_mutated, files = []\<rparr>)
           = fst (collected_results example_res None \<lparr>store = example_heap', files = []\<rparr>)"
    by blast
  with example_collected have cr:
    "fst (collected_results example_res None \<lparr>store = example_heap_mutated, files = []\<rparr>)
       = Inr example_results"
    by (simp add: example_state_def)
  from example_dynRes_init ix example_dyn_objects same changed fc cr show ?thesis by blast
qed

text \<open>
  Claim C10. The results object holds \<open>init['x']\<close> by reference: writing other
  contents into that array in place, after the object is built, changes what
  \<open>mapped_parameters_init\<close> returns, and what \<open>free_parameters_init\<close> returns when the
  inversion of the mapping tells the two contents apart.
\<close>

theorem init_snapshot_held_by_reference:
  assumes "dynRes_init h samples dyn init = Inr (h1, r)"
    and "lookup h (self_init_x r) = Some (CNested X)"
    and "lookup h dyn = Some (CDyn d)"
    and "flatten_mapped X' \<noteq> flatten_mapped X"
    and "mapped_to_free M (vm d) X' \<noteq> mapped_to_free M (vm d) X"
  shows "map_of init ''x'' = Some (self_init_x r)
       \<and> (\<exists>h2. length h2 = length h1
              \<and> (\<forall>a. a \<noteq> self_init_x r \<longrightarrow> lookup h2 a = lookup h1 a)
              \<and> lookup h2 (self_init_x r) = Some (CNested X')
              \<and> mapped_parameters_init h2 r \<noteq> mapped_parameters_init h1 r
              \<and> free_parameters_init M h2 r \<noteq> free_parameters_init M h1 r)"
proof -
  from dynRes_init_parts[OF assms(1)] have
    dc: "deepcopy h dyn = Inr (h1, self_dyn r)" and mo: "map_of init ''x'' = Some (self_init_x r)"
    by simp_all
  from deepcopy_props[OF dc] assms(3) obtain e where
    h1: "h1 = h @ e" and len: "length h + 2 \<le> length h1" and c: "self_dyn r = length h1 - 1" and
    lc: "lookup h1 (self_dyn r) = Some (CDyn (d\<lparr>mrs_list := length h1 - 2\<rparr>))"
    by auto
  define h2 where "h2 = h1[self_init_x r := CNested X']"
  from assms(2) have ixh: "self_init_x r < length h" by (simp add: lookup_SomeD)
  from assms(2) have ix1: "lookup h1 (self_init_x r) = Some (CNested X)"
    unfolding h1 by (rule lookup_append_mono)
  have ix2: "lookup h2 (self_init_x r) = Some (CNested X')"
    using ixh h1 by (simp add: h2_def lookup_def)
  have other: "\<forall>a. a \<noteq> self_init_x r \<longrightarrow> lookup h2 a = lookup h1 a"
    by (simp add: h2_def lookup_def)
  have "self_dyn r \<noteq> self_init_x r" using ixh c len by simp
  with other lc have lc2: "lookup h2 (self_dyn r) = Some (CDyn (d\<lparr>mrs_list := length h1 - 2\<rparr>))"
    by simp
  have m: "mapped_parameters_init h2 r \<noteq> mapped_parameters_init h1 r"
    using assms(4) by (simp add: mapped_parameters_init_def read_init_x_def ix1 ix2)
  have f: "free_parameters_init M h2 r \<noteq> free_parameters_init M h1 r"
    using assms(5) by (simp add: free_parameters_init_def read_init_x_def read_dyn_def ix1 ix2 lc lc2)
  have "length h2 = length h1" by (simp add: h2_def)
  with mo other ix2 m f show ?thesis by blast
qed

theorem init_snapshot_held_by_reference_witness:
  "dynRes_init example_heap [[2, 1, 0]] 4 example_init = Inr (example_heap', example_res)
   \<and> lookup example_heap (self_init_x example_res) = Some (CNested [[[5], [1], [0]], [[5], [3], [0]]])
   \<and> lookup example_heap 4 = Some (CDyn example_dyn)
   \<and> flatten_mapped [[[6], [1], [0]], [[5], [3], [0::real]]] \<noteq> flatten_mapped [[[5], [1], [0]], [[5], [3], [0]]]
   \<and> mapped_to_free example_methods (vm example_dyn) [[[6], [1], [0]], [[5], [3], [0]]]
       \<noteq> mapped_to_free example_methods (vm example_dyn) [[[5], [1], [0]], [[5], [3], [0]]]
   \<and> map_of example_init ''x'' = Some (self_init_x example_res)
   \<and> mapped_parameters_init example_heap' example_res = Inr [[5, 1, 0], [5, 3, 0]]
   \<and> mapped_parameters_init (example_heap'[5 := CNested [[[6], [1], [0]], [[5], [3], [0]]]]) example_res
       = Inr [[6, 1, 0], [5, 3, 0]]
   \<and> free_parameters_init example_methods example_heap' example_res = Inr [5, 1, 0]
   \<and> free_parameters_init example_methods
         (example_heap'[5 := CNested [[[6], [1], [0]], [[5], [3], [0]]]]) example_res = Inr [6, 1, 0]"
proof -
  have ix: "lookup example_heap (self_init_x example_res) = Some (CNested [[[5], [1], [0]], [[5], [3], [0]]])"
    by (simp add: example_res_def example_lookups)
  have fl: "flatten_mapped [[[6], [1], [0]], [[5], [3], [0::real]]] \<noteq> flatten_mapped [[[5], [1], [0]], [[5], [3], [0]]]"
    by (simp add: flatten_mapped_def)
  have mf: "mapped_to_free example_methods (vm example_dyn) [[[6], [1], [0]], [[5], [3], [0]]]
       \<noteq> mapped_to_free example_methods (vm example_dyn) [[[5], [1], [0]], [[5], [3], [0]]]"
    by (simp add: example_methods_def)
  note t = init_snapshot_held_by_reference[OF example_dynRes_init ix example_lookups(3) fl mf]
  from t have mo: "map_of example_init ''x'' = Some (self_init_x example_res)" by blast
  have l5: "lookup (example_heap'[5 := CNested [[[6], [1], [0]], [[5], [3], [0]]]]) 5
             = Some (CNested [[[6], [1], [0]], [[5], [3], [0]]])"
    and l9: "lookup (example_heap'[5 := CNested [[[6], [1], [0]], [[5], [3], [0]]]]) 9
             = Some (CDyn (example_dyn\<lparr>mrs_list := 8\<rparr>))"
    by (simp_all add: lookup_def example_heap'_def example_heap_def)
  have a: "mapped_parameters_init example_heap' example_res = Inr [[5, 1, 0], [5, 3, 0]]"
    by (simp add: mapped_parameters_init_def read_init_x_def example_res_def example_lookups'
        flatten_mapped_def)
  have b: "mapped_parameters_init (example_heap'[5 := CNested [[[6], [1], [0]], [[5], [3], [0]]]]) example_res
       = Inr [[6, 1, 0], [5, 3, 0]]"
    by (simp add: mapped_parameters_init_def read_init_x_def example_res_def l5 flatten_mapped_def)
  have c: "free_parameters_init example_methods example_heap' example_res = Inr [5, 1, 0]"
    by (simp add: free_parameters_init_def read_init_x_def read_dyn_def example_res_def example_lookups'
        example_methods_def)
  have d: "free_parameters_init example_methods
         (example_heap'[5 := CNested [[[6], [1], [0]], [[5], [3], [0]]]]) example_res = Inr [6, 1, 0]"
    by (simp add: free_parameters_init_def read_init_x_def read_dyn_def example_res_def l5 l9
        example_methods_def)
  from example_dynRes_init ix example_lookups(3) fl mf mo a b c d show ?thesis by blast
qed


section \<open>The water reference in the script\<close>

lemma upper_Y: "upper ''Y'' = ''Y''" "upper ''y'' = ''Y''" "upper ''N'' = ''N''"
  by (simp_all add: upper_def upper_char_def)

lemma example_run_declined:
  "main example_read_FID example_describe example_fit_and_save example_args (example_world ''N'')
     = (Exited,
        \<lparr>dirs = [(''out'', [''dyn_results.csv''])], stdin = [],
          stdout = [''Folder '' @ [CHR 0x27] @ ''out'' @ [CHR 0x27] @ '' exists.''
                      @ '' Are you sure you want to delete it? [Y,N]'',
                    ''Please specify a different output folder name.''],
          warn_filters = [\<lparr>action = ActIgnore, matches = (\<lambda>msg. True)\<rparr>]\<rparr>)"
  by (simp add: main_def prepare_output_def example_args_def example_world_def is_dir_def print_def
      upper_Y Let_def)

lemma example_run_granted:
  "main example_read_FID example_describe example_fit_and_save example_args (example_world ''Y'')
     = (Raised (NotImplementedError ''H2O referencing not yet implemented for dynamic fitting.''),
        \<lparr>dirs = [(''out'', [])], stdin = [],
          stdout = [''Folder '' @ [CHR 0x27] @ ''out'' @ [CHR 0x27] @ '' exists.''
                      @ '' Are you sure you want to delete it? [Y,N]''],
          warn_filters = [\<lparr>action = ActIgnore, matches = (\<lambda>msg. True)\<rparr>]\<rparr>)"
  by (simp add: main_def prepare_output_def example_args_def example_world_def is_dir_def print_def
      upper_Y Let_def rmtree_def mkdir_def example_read_FID_def)

text \<open>
  Claim C9, as stated, fails on the code. The check of the water reference stands
  after the check of the output folder and after the reading of the data. With a
  water reference given, a run whose output folder exists and whose user declines to
  delete it exits with no error about the water reference; and a run whose user
  agrees raises the error after the folder was deleted and created again, so what it
  held is gone.
\<close>

theorem h2o_not_rejected_fast_counterexample:
  "arg_h2o example_args \<noteq> None
   \<and> fst (main example_read_FID example_describe example_fit_and_save example_args (example_world ''N''))
       = Exited
   \<and> fst (main example_read_FID example_describe example_fit_and_save example_args (example_world ''Y''))
       = Raised (NotImplementedError ''H2O referencing not yet implemented for dynamic fitting.'')
   \<and> map_of (dirs (example_world ''Y'')) ''out'' = Some [''dyn_results.csv'']
   \<and> map_of (dirs (snd (main example_read_FID example_describe example_fit_and_save example_args
                            (example_world ''Y'')))) ''out'' = Some []"
  by (simp add: example_run_declined example_run_granted)
     (simp add: example_args_def example_world_def)

lemma map_of_rmtree: "map_of (dirs (rmtree p w)) p = None"
  by (simp add: rmtree_def map_of_eq_None_iff image_iff)

lemma map_of_mkdir_new: "\<not> is_dir w p \<Longrightarrow> map_of (dirs (mkdir p w)) p = Some []"
  by (simp add: mkdir_def is_dir_def map_of_append map_add_def)

lemma prepare_output_continues:
  assumes "\<not> is_dir w (arg_output a) \<or> arg_overwrite a
           \<or> (\<exists>resp rest. stdin w = resp # rest \<and> upper resp = ''Y'')"
  shows "\<exists>w'. prepare_output a w = (None, w') \<and> map_of (dirs w') (arg_output a) = Some []"
proof (cases "is_dir w (arg_output a)")
  case False
  then show ?thesis by (simp add: prepare_output_def map_of_mkdir_new)
next
  case True
  have nd: "\<not> is_dir (rmtree (arg_output a) v) (arg_output a)" for v
    by (simp add: is_dir_def map_of_rmtree)
  show ?thesis
  proof (cases "arg_overwrite a")
    case ov: True
    with True show ?thesis
      by (simp add: prepare_output_def map_of_mkdir_new[OF nd])
  next
    case ov: False
    with True assms obtain resp rest where st: "stdin w = resp # rest" "upper resp = ''Y''"
      by blast
    with True ov show ?thesis
      by (simp add: prepare_output_def Let_def print_def map_of_mkdir_new[OF nd])
  qed
qed

lemma dirs_print: "dirs (print l w) = dirs w"
  by (simp add: print_def)

lemma dirs_prints: "dirs (foldl (\<lambda>w line. print line w) w ls) = dirs w"
  by (induction ls arbitrary: w) (simp_all add: dirs_print)

lemma is_dir_filters: "is_dir (w\<lparr>warn_filters := fs\<rparr>) p = is_dir w p"
  by (simp add: is_dir_def)

text \<open>
  Claim C9, amended. With a water reference given, a run that gets past the output
  folder (the folder is absent, or overwriting is granted by the option or by the
  answer \<open>Y\<close>) and reads the data file raises \<open>NotImplementedError\<close> with the message
  of the source. Nothing of the script after the check runs: whatever the rest of the
  script is, the run is the same. By then the output folder exists and is empty.
\<close>

theorem h2o_rejected_when_check_is_reached:
  assumes "arg_h2o a \<noteq> None"
    and "\<not> is_dir w (arg_output a) \<or> arg_overwrite a
         \<or> (\<exists>resp rest. stdin w = resp # rest \<and> upper resp = ''Y'')"
    and "read_FID (arg_data a) = Inr d"
  shows "\<exists>w'. main read_FID describe fit_and_save a w
               = (Raised (NotImplementedError
                    ''H2O referencing not yet implemented for dynamic fitting.''), w')
             \<and> map_of (dirs w') (arg_output a) = Some []
             \<and> (\<forall>other. main read_FID describe other a w
                          = main read_FID describe fit_and_save a w)"
proof -
  define w0 where "w0 = (if \<not> arg_verbose a
               then w\<lparr>warn_filters := \<lparr>action = ActIgnore, matches = (\<lambda>msg. True)\<rparr> # warn_filters w\<rparr>
               else w)"
  have "\<not> is_dir w0 (arg_output a) \<or> arg_overwrite a
         \<or> (\<exists>resp rest. stdin w0 = resp # rest \<and> upper resp = ''Y'')"
    using assms(2) by (auto simp: w0_def is_dir_filters)
  from prepare_output_continues[OF this] obtain w1 where
    po: "prepare_output a w0 = (None, w1)" and d1: "map_of (dirs w1) (arg_output a) = Some []"
    by blast
  define w2 where "w2 = (if arg_verbose a
                       then print (''  '' @ arg_data a) (print ''--->> Read input data'' w1)
                       else w1)"
  define w3 where "w3 = (if arg_verbose a then foldl (\<lambda>w line. print line w) w2 (describe d) else w2)"
  have d3: "dirs w3 = dirs w1"
    by (simp add: w3_def w2_def dirs_prints dirs_print)
  have run: "main read_FID describe other a w
               = (Raised (NotImplementedError
                    ''H2O referencing not yet implemented for dynamic fitting.''), w3)" for other
    using assms(1,3) po
    unfolding main_def Let_def w0_def[symmetric]
    by (simp add: w2_def w3_def)
  from run d1 d3 show ?thesis by simp
qed

theorem h2o_rejected_when_check_is_reached_witness:
  "arg_h2o example_args \<noteq> None
   \<and> stdin (example_world ''y'') = ''y'' # [] \<and> upper ''y'' = ''Y''
   \<and> example_read_FID (arg_data example_args) = Inr ()
   \<and> (\<exists>w'. main example_read_FID example_describe example_fit_and_save example_args (example_world ''y'')
               = (Raised (NotImplementedError
                    ''H2O referencing not yet implemented for dynamic fitting.''), w')
             \<and> map_of (dirs w') (arg_output example_args) = Some [])"
proof -
  have h1: "arg_h2o example_args \<noteq> None" by (simp add: example_args_def)
  have st: "stdin (example_world ''y'') = ''y'' # []" by (simp add: example_world_def)
  have h2: "\<not> is_dir (example_world ''y'') (arg_output example_args) \<or> arg_overwrite example_args
         \<or> (\<exists>resp rest. stdin (example_world ''y'') = resp # rest \<and> upper resp = ''Y'')"
    using st upper_Y(2) by blast
  have h3: "example_read_FID (arg_data example_args) = Inr ()" by (simp add: example_read_FID_def)
  from h2o_rejected_when_check_is_reached[where read_FID = example_read_FID and a = example_args
      and w = "example_world ''y''" and d = "()" and describe = example_describe
      and fit_and_save = example_fit_and_save, OF h1 h2 h3]
  have "\<exists>w'. main example_read_FID example_describe example_fit_and_save example_args (example_world ''y'')
               = (Raised (NotImplementedError
                    ''H2O referencing not yet implemented for dynamic fitting.''), w')
             \<and> map_of (dirs w') (arg_output example_args) = Some []"
    by blast
  with h1 st upper_Y(2) h3 show ?thesis by blast
qed

end
